theory Spec2Isabelle
  imports Complex_Main "HOL-Library.Product_Lexorder" "HOL-Library.Multiset" "HOL-Library.Sublist"
begin

section \<open>Python values and the failures of dynamic lookups\<close>

text \<open>
  The scraper works on the dictionaries that \<^verbatim>\<open>resp.json()\<close> returns. A value is
  \<^verbatim>\<open>None\<close>, a bool, an int, a float, a string, a list or a dict with string keys.
  A dict is an association list in insertion order (its keys are distinct; lookup
  takes the first binding of a key). Strings are lists of characters with code
  points below 256.

  Floats are idealised: the float read from a decimal literal is identified with
  that decimal, \<open>JFloat m e\<close> standing for \<open>m * 10 ^ e\<close>, and every computed
  number is its exact rational value. Infinities and NaN are left out.
\<close>

datatype error = KeyError | IndexError | TypeError | AttributeError | ValueError | EOFError

datatype json =
    JNull
  | JBool bool
  | JInt int
  | JFloat int int
  | JStr string
  | JArr "json list"
  | JObj "(string \<times> json) list"

fun and_then :: "error + 'a \<Rightarrow> ('a \<Rightarrow> error + 'b) \<Rightarrow> error + 'b" where
  "and_then (Inl e) f = Inl e"
| "and_then (Inr x) f = f x"

text \<open>\<^verbatim>\<open>d.get(k, default)\<close>: only a dict has the method.\<close>

fun py_get :: "json \<Rightarrow> string \<Rightarrow> json \<Rightarrow> error + json" where
  "py_get (JObj kvs) k d = Inr (case map_of kvs k of Some v \<Rightarrow> v | None \<Rightarrow> d)"
| "py_get _ k d = Inl AttributeError"

text \<open>\<^verbatim>\<open>d[k]\<close> with a string key.\<close>

fun py_item :: "json \<Rightarrow> string \<Rightarrow> error + json" where
  "py_item (JObj kvs) k = (case map_of kvs k of Some v \<Rightarrow> Inr v | None \<Rightarrow> Inl KeyError)"
| "py_item _ k = Inl TypeError"

text \<open>\<^verbatim>\<open>x[0]\<close>: a dict of string keys has no key \<open>0\<close>.\<close>

fun py_first :: "json \<Rightarrow> error + json" where
  "py_first (JArr xs) = (case xs of [] \<Rightarrow> Inl IndexError | x # _ \<Rightarrow> Inr x)"
| "py_first (JStr s) = (case s of [] \<Rightarrow> Inl IndexError | c # _ \<Rightarrow> Inr (JStr [c]))"
| "py_first (JObj kvs) = Inl KeyError"
| "py_first _ = Inl TypeError"

definition pow10 :: "int \<Rightarrow> rat" where
  "pow10 e = (if 0 \<le> e then 10 ^ nat e else 1 / 10 ^ nat (- e))"

text \<open>The value of a number; \<^verbatim>\<open>bool\<close> is a subclass of \<^verbatim>\<open>int\<close>.\<close>

fun py_num :: "json \<Rightarrow> rat option" where
  "py_num (JBool b) = Some (if b then 1 else 0)"
| "py_num (JInt i) = Some (of_int i)"
| "py_num (JFloat m e) = Some (of_int m * pow10 e)"
| "py_num _ = None"

fun py_truthy :: "json \<Rightarrow> bool" where
  "py_truthy JNull = False"
| "py_truthy (JBool b) = b"
| "py_truthy (JInt i) = (i \<noteq> 0)"
| "py_truthy (JFloat m e) = (m \<noteq> 0)"
| "py_truthy (JStr s) = (s \<noteq> [])"
| "py_truthy (JArr xs) = (xs \<noteq> [])"
| "py_truthy (JObj kvs) = (kvs \<noteq> [])"

fun py_len :: "json \<Rightarrow> error + nat" where
  "py_len (JStr s) = Inr (length s)"
| "py_len (JArr xs) = Inr (length xs)"
| "py_len (JObj kvs) = Inr (length kvs)"
| "py_len _ = Inl TypeError"

text \<open>The items a \<^verbatim>\<open>for\<close> loop visits: a dict yields its keys, a string its characters.\<close>

fun py_iter :: "json \<Rightarrow> error + json list" where
  "py_iter (JArr xs) = Inr xs"
| "py_iter (JObj kvs) = Inr (map (\<lambda>kv. JStr (fst kv)) kvs)"
| "py_iter (JStr s) = Inr (map (\<lambda>c. JStr [c]) s)"
| "py_iter _ = Inl TypeError"

section \<open>Plan filtering\<close>

text \<open>The expression \<^verbatim>\<open>plan["planData"]["contract"][0]\<close> of both gates and of \<^verbatim>\<open>process_plan\<close>.\<close>

definition primary_contract :: "json \<Rightarrow> error + json" where
  "primary_contract plan =
     and_then (py_item plan ''planData'') (\<lambda>plan_data.
     and_then (py_item plan_data ''contract'') (\<lambda>contracts.
     py_first contracts))"

fun demand_loop :: "json list \<Rightarrow> error + bool" where
  "demand_loop [] = Inr False"
| "demand_loop (tp # tps) =
     (case py_get tp ''demandCharge'' JNull of
        Inl e \<Rightarrow> Inl e
      | Inr dc \<Rightarrow>
          if py_truthy dc then
            (case py_len dc of
               Inl e \<Rightarrow> Inl e
             | Inr n \<Rightarrow> if 0 < n then Inr True else demand_loop tps)
          else demand_loop tps)"

definition plan_has_demand_charge :: "json \<Rightarrow> error + bool" where
  "plan_has_demand_charge plan =
     and_then (primary_contract plan) (\<lambda>contract.
     and_then (py_get contract ''tariffPeriod'' (JArr [])) (\<lambda>tps.
     and_then (py_iter tps) demand_loop))"

definition plan_has_controlled_load :: "json \<Rightarrow> error + bool" where
  "plan_has_controlled_load plan =
     and_then (primary_contract plan) (\<lambda>contract.
     and_then (py_get contract ''controlledLoad'' JNull) (\<lambda>cl.
     if py_truthy cl then and_then (py_len cl) (\<lambda>n. Inr (0 < n)) else Inr False))"

record filter_stats =
  total :: nat
  demand_filtered :: nat
  controlled_load_filtered :: nat
  kept :: nat

text \<open>
  The loop of \<^verbatim>\<open>filter_plans\<close>, carrying \<^verbatim>\<open>filtered\<close> and \<^verbatim>\<open>stats\<close>. A gate is only
  called when its switch is off (\<^verbatim>\<open>not include_demand and ...\<close>); an exception of
  a gate leaves the loop and the function.
\<close>

fun filter_loop ::
  "bool \<Rightarrow> bool \<Rightarrow> json list \<Rightarrow> json list \<Rightarrow> filter_stats \<Rightarrow> error + (json list \<times> filter_stats)" where
  "filter_loop include_controlled_load include_demand [] filtered stats = Inr (filtered, stats)"
| "filter_loop include_controlled_load include_demand (plan # plans) filtered stats =
     (case (if \<not> include_demand then plan_has_demand_charge plan else Inr False) of
        Inl e \<Rightarrow> Inl e
      | Inr True \<Rightarrow>
          filter_loop include_controlled_load include_demand plans filtered
            (stats\<lparr>demand_filtered := demand_filtered stats + 1\<rparr>)
      | Inr False \<Rightarrow>
          (case (if \<not> include_controlled_load then plan_has_controlled_load plan else Inr False) of
             Inl e \<Rightarrow> Inl e
           | Inr True \<Rightarrow>
               filter_loop include_controlled_load include_demand plans filtered
                 (stats\<lparr>controlled_load_filtered := controlled_load_filtered stats + 1\<rparr>)
           | Inr False \<Rightarrow>
               filter_loop include_controlled_load include_demand plans (filtered @ [plan]) stats))"

definition filter_plans :: "json list \<Rightarrow> bool \<Rightarrow> bool \<Rightarrow> error + (json list \<times> filter_stats)" where
  "filter_plans plans include_controlled_load include_demand =
     (case filter_loop include_controlled_load include_demand plans []
             \<lparr>total = length plans, demand_filtered = 0, controlled_load_filtered = 0, kept = 0\<rparr> of
        Inl e \<Rightarrow> Inl e
      | Inr (filtered, stats) \<Rightarrow> Inr (filtered, stats\<lparr>kept := length filtered\<rparr>))"


section \<open>Data extraction helpers\<close>

definition GST_MULTIPLIER :: rat where
  "GST_MULTIPLIER = 11 / 10"

text \<open>\<^verbatim>\<open>round(x, 2)\<close>: to the nearest hundredth, a tie going to the even neighbour.\<close>

definition round_half_even :: "rat \<Rightarrow> int" where
  "round_half_even y =
     (let f = \<lfloor>y\<rfloor>; d = y - of_int f
      in if d < 1 / 2 then f else if 1 / 2 < d then f + 1 else if even f then f else f + 1)"

definition round2 :: "rat \<Rightarrow> rat" where
  "round2 x = of_int (round_half_even (x * 100)) / 100"

text \<open>\<^verbatim>\<open>x * GST_MULTIPLIER\<close> and \<^verbatim>\<open>x > 0\<close> raise \<^verbatim>\<open>TypeError\<close> unless \<open>x\<close> is a number.\<close>

definition py_times :: "json \<Rightarrow> rat \<Rightarrow> error + rat" where
  "py_times x k = (case py_num x of Some v \<Rightarrow> Inr (v * k) | None \<Rightarrow> Inl TypeError)"

definition py_positive :: "json \<Rightarrow> error + bool" where
  "py_positive x = (case py_num x of Some v \<Rightarrow> Inr (0 < v) | None \<Rightarrow> Inl TypeError)"

text \<open>A loop body run on each item in turn; the first exception ends the loop.\<close>

fun for_each :: "('a \<Rightarrow> error + 'b) \<Rightarrow> 'a list \<Rightarrow> error + 'b list" where
  "for_each f [] = Inr []"
| "for_each f (x # xs) =
     (case f x of
        Inl e \<Rightarrow> Inl e
      | Inr y \<Rightarrow> (case for_each f xs of Inl e \<Rightarrow> Inl e | Inr ys \<Rightarrow> Inr (y # ys)))"

definition extract_supply_charge :: "json \<Rightarrow> error + rat option" where
  "extract_supply_charge contract =
     and_then (py_get contract ''tariffPeriod'' (JArr [])) (\<lambda>tariff_periods.
     if py_truthy tariff_periods then
       and_then (py_first tariff_periods) (\<lambda>tp.
       and_then (py_get tp ''dailySupplyCharge'' JNull) (\<lambda>charge.
       if charge \<noteq> JNull then
         and_then (py_times charge GST_MULTIPLIER) (\<lambda>v. Inr (Some (round2 v)))
       else Inr None))
     else Inr None)"

text \<open>\<^verbatim>\<open>round(br["unitPrice"] * GST_MULTIPLIER, 2)\<close> for each entry of a \<^verbatim>\<open>blockRate\<close> list.\<close>

definition block_rate :: "json \<Rightarrow> error + rat" where
  "block_rate br =
     and_then (py_item br ''unitPrice'') (\<lambda>unit_price.
     and_then (py_times unit_price GST_MULTIPLIER) (\<lambda>v. Inr (round2 v)))"

definition block_rates :: "json \<Rightarrow> error + rat list" where
  "block_rates holder =
     and_then (py_get holder ''blockRate'' (JArr [])) (\<lambda>brs.
     and_then (py_iter brs) (for_each block_rate))"

definition collect_usage_rates :: "json \<Rightarrow> error + rat list" where
  "collect_usage_rates contract =
     and_then (py_get contract ''tariffPeriod'' (JArr [])) (\<lambda>tariff_periods.
     if \<not> py_truthy tariff_periods then Inr []
     else
       and_then (py_first tariff_periods) (\<lambda>tp.
       and_then (py_get contract ''pricingModel'' (JStr ''SR'')) (\<lambda>pricing_model.
       if pricing_model = JStr ''TOU'' then
         and_then (py_get tp ''touBlock'' (JArr [])) (\<lambda>blocks.
         and_then (py_iter blocks) (\<lambda>bl.
         and_then (for_each block_rates bl) (\<lambda>rss. Inr (concat rss))))
       else block_rates tp)))"

text \<open>\<^verbatim>\<open>min(rates) if rates else None\<close> and its \<^verbatim>\<open>max\<close> twin.\<close>

fun min_or_none :: "rat list \<Rightarrow> rat option" where
  "min_or_none [] = None"
| "min_or_none (r # rs) = Some (fold min rs r)"

fun max_or_none :: "rat list \<Rightarrow> rat option" where
  "max_or_none [] = None"
| "max_or_none (r # rs) = Some (fold max rs r)"

definition extract_usage_rate_min :: "json \<Rightarrow> error + rat option" where
  "extract_usage_rate_min contract =
     and_then (collect_usage_rates contract) (\<lambda>rates. Inr (min_or_none rates))"

definition extract_usage_rate_max :: "json \<Rightarrow> error + rat option" where
  "extract_usage_rate_max contract =
     and_then (collect_usage_rates contract) (\<lambda>rates. Inr (max_or_none rates))"

definition extract_tou_peak_rate :: "json \<Rightarrow> error + rat option" where
  "extract_tou_peak_rate contract =
     and_then (py_get contract ''pricingModel'' JNull) (\<lambda>pricing_model.
     if pricing_model \<noteq> JStr ''TOU'' then Inr None
     else and_then (collect_usage_rates contract) (\<lambda>rates. Inr (max_or_none rates)))"

definition extract_tou_offpeak_rate :: "json \<Rightarrow> error + rat option" where
  "extract_tou_offpeak_rate contract =
     and_then (py_get contract ''pricingModel'' JNull) (\<lambda>pricing_model.
     if pricing_model \<noteq> JStr ''TOU'' then Inr None
     else and_then (collect_usage_rates contract) (\<lambda>rates. Inr (min_or_none rates)))"

text \<open>
  The first loop of \<^verbatim>\<open>_collect_solar_fit_rates\<close>: the values appended to \<^verbatim>\<open>rates\<close>. An
  entry of type \<^verbatim>\<open>"G"\<close> is skipped before any other field of it is read.
\<close>

fun solar_fit_loop :: "json list \<Rightarrow> error + json list" where
  "solar_fit_loop [] = Inr []"
| "solar_fit_loop (fit # fits) =
     and_then (py_get fit ''type'' JNull) (\<lambda>ty.
     if ty = JStr ''G'' then solar_fit_loop fits
     else
       and_then (py_get fit ''rate'' JNull) (\<lambda>rate.
       if rate \<noteq> JNull then
         and_then (solar_fit_loop fits) (\<lambda>rest. Inr (rate # rest))
       else
         and_then (py_get fit ''singleTariffRates'' (JArr [])) (\<lambda>srs.
         and_then (py_iter srs) (\<lambda>srl.
         and_then (for_each (\<lambda>sr. py_get sr ''unitPrice'' (JInt 0)) srl) (\<lambda>prices.
         and_then (solar_fit_loop fits) (\<lambda>rest. Inr (prices @ rest)))))))"

text \<open>\<^verbatim>\<open>[r for r in rates if r > 0]\<close>, the kept rates given by their values.\<close>

fun positive_rates :: "json list \<Rightarrow> error + rat list" where
  "positive_rates [] = Inr []"
| "positive_rates (r # rs) =
     (case py_num r of
        None \<Rightarrow> Inl TypeError
      | Some v \<Rightarrow>
          (case positive_rates rs of
             Inl e \<Rightarrow> Inl e
           | Inr vs \<Rightarrow> Inr (if 0 < v then v # vs else vs)))"

definition collect_solar_fit_rates :: "json \<Rightarrow> error + rat list" where
  "collect_solar_fit_rates contract =
     and_then (py_get contract ''solarFit'' (JArr [])) (\<lambda>solar_fits.
     if \<not> py_truthy solar_fits then Inr []
     else
       and_then (py_iter solar_fits) (\<lambda>fits.
       and_then (solar_fit_loop fits) positive_rates))"

definition extract_solar_fit_min :: "json \<Rightarrow> error + rat" where
  "extract_solar_fit_min contract =
     and_then (collect_solar_fit_rates contract) (\<lambda>non_zero.
     Inr (case min_or_none non_zero of Some m \<Rightarrow> round2 m | None \<Rightarrow> 0))"

definition extract_solar_fit_max :: "json \<Rightarrow> error + rat" where
  "extract_solar_fit_max contract =
     and_then (collect_solar_fit_rates contract) (\<lambda>non_zero.
     Inr (case max_or_none non_zero of Some m \<Rightarrow> round2 m | None \<Rightarrow> 0))"

text \<open>
  \<^verbatim>\<open>extract_controlled_load_rate\<close> and \<^verbatim>\<open>extract_controlled_load_supply\<close>: the first
  controlled-load entry only.
\<close>

definition extract_controlled_load_rate :: "json \<Rightarrow> error + rat" where
  "extract_controlled_load_rate contract =
     and_then (py_get contract ''controlledLoad'' (JArr [])) (\<lambda>cl_list.
     if \<not> py_truthy cl_list then Inr 0
     else
       and_then (py_first cl_list) (\<lambda>cl.
       and_then (py_get cl ''singleRate'' (JObj [])) (\<lambda>sr.
       and_then (py_get sr ''rates'' (JArr [])) (\<lambda>rates_list.
       if py_truthy rates_list then
         and_then (py_first rates_list) (\<lambda>r.
         and_then (py_get r ''unitPrice'' (JInt 0)) (\<lambda>unit_price.
         and_then (py_times unit_price GST_MULTIPLIER) (\<lambda>v. Inr (round2 v))))
       else Inr 0))))"

definition extract_controlled_load_supply :: "json \<Rightarrow> error + rat" where
  "extract_controlled_load_supply contract =
     and_then (py_get contract ''controlledLoad'' (JArr [])) (\<lambda>cl_list.
     if \<not> py_truthy cl_list then Inr 0
     else
       and_then (py_first cl_list) (\<lambda>cl.
       and_then (py_get cl ''singleRate'' (JObj [])) (\<lambda>sr.
       and_then (py_get sr ''dailySupplyCharge'' (JInt 0)) (\<lambda>daily_charge.
       if py_truthy daily_charge then
         and_then (py_times daily_charge GST_MULTIPLIER) (\<lambda>v. Inr (round2 v))
       else Inr 0))))"

subsection \<open>Numbers in f-strings\<close>

definition digit_char :: "nat \<Rightarrow> char" where
  "digit_char d = ''0123456789'' ! d"

text \<open>\<^verbatim>\<open>str\<close> of a non-negative int, most significant digit first.\<close>

fun decimal_of_nat :: "nat \<Rightarrow> string" where
  "decimal_of_nat n =
     (if 10 \<le> n then decimal_of_nat (n div 10) @ [digit_char (n mod 10)] else [digit_char n])"

declare decimal_of_nat.simps [simp del]

definition str_of_int :: "int \<Rightarrow> string" where
  "str_of_int i = (if 0 \<le> i then decimal_of_nat (nat i) else CHR ''-'' # decimal_of_nat (nat (- i)))"

text \<open>
  \<^verbatim>\<open>repr\<close> of a float with shortest digit string \<open>ds\<close> and decimal point position
  \<open>decpt\<close> (the value is \<open>0.ds * 10 ^ decpt\<close>): exponent notation when
  \<open>decpt \<le> -4\<close> or \<open>decpt > 16\<close>, positional notation otherwise. So
  \<^verbatim>\<open>repr(8.0) = '8.0'\<close>, \<^verbatim>\<open>repr(0.0001) = '0.0001'\<close> and \<^verbatim>\<open>repr(0.00001) = '1e-05'\<close>.
\<close>

definition exponent_str :: "int \<Rightarrow> string" where
  "exponent_str x =
     (if x < 0 then ''-'' else ''+'') @
     (let d = decimal_of_nat (nat \<bar>x\<bar>) in if length d < 2 then CHR ''0'' # d else d)"

definition float_repr :: "int \<Rightarrow> int \<Rightarrow> string" where
  "float_repr m e =
     (if m = 0 then ''0.0''
      else
        let ds0 = decimal_of_nat (nat \<bar>m\<bar>);
            z = length (takeWhile (\<lambda>c. c = CHR ''0'') (rev ds0));
            ds = take (length ds0 - z) ds0;
            n = int (length ds);
            decpt = n + int z + e;
            sign = (if m < 0 then ''-'' else [])
        in
          if decpt \<le> - 4 \<or> 16 < decpt then
            sign @ take 1 ds @ (if 1 < length ds then CHR ''.'' # drop 1 ds else [])
              @ ''e'' @ exponent_str (decpt - 1)
          else if decpt \<le> 0 then
            sign @ ''0.'' @ replicate (nat (- decpt)) CHR ''0'' @ ds
          else if n \<le> decpt then
            sign @ ds @ replicate (nat (decpt - n)) CHR ''0'' @ ''.0''
          else
            sign @ take (nat decpt) ds @ CHR ''.'' # drop (nat decpt) ds)"

text \<open>
  \<^verbatim>\<open>f"{x}"\<close> for a number \<open>x\<close>. The formatter only formats a value after comparing
  it with \<open>0\<close>, so nothing but a number reaches the f-string.
\<close>

fun format_number :: "json \<Rightarrow> string" where
  "format_number (JBool b) = (if b then ''True'' else ''False'')"
| "format_number (JInt i) = str_of_int i"
| "format_number (JFloat m e) = float_repr m e"
| "format_number _ = []"

fun join_str :: "string \<Rightarrow> string list \<Rightarrow> string" where
  "join_str sep [] = []"
| "join_str sep [x] = x"
| "join_str sep (x # y # zs) = x @ sep @ join_str sep (y # zs)"

subsection \<open>Solar feed-in details\<close>

definition no_solar_fit :: string where
  "no_solar_fit = ''No solar feed-in tariff''"

definition detail_clause :: "json \<Rightarrow> json \<Rightarrow> bool \<Rightarrow> string" where
  "detail_clause price volume capped =
     (if capped then format_number price @ ''c/kWh (first '' @ format_number volume @ ''kWh/day)''
      else format_number price @ ''c/kWh'')"

text \<open>The inner loop of \<^verbatim>\<open>extract_solar_fit_details\<close> over \<^verbatim>\<open>single_rates\<close>.\<close>

fun tier_details :: "json list \<Rightarrow> error + string list" where
  "tier_details [] = Inr []"
| "tier_details (sr # srs) =
     and_then (py_get sr ''unitPrice'' (JInt 0)) (\<lambda>price.
     and_then (py_get sr ''volume'' (JInt 0)) (\<lambda>volume.
     and_then (py_positive price) (\<lambda>has_price.
     if has_price then
       and_then (py_positive volume) (\<lambda>capped.
       and_then (tier_details srs) (\<lambda>rest.
       Inr (detail_clause price volume capped # rest)))
     else tier_details srs)))"

fun details_loop :: "json list \<Rightarrow> error + string list" where
  "details_loop [] = Inr []"
| "details_loop (fit # fits) =
     and_then (py_get fit ''type'' JNull) (\<lambda>ty.
     if ty = JStr ''G'' then details_loop fits
     else
       and_then (py_get fit ''singleTariffRates'' (JArr [])) (\<lambda>single_rates.
       and_then (py_iter single_rates) (\<lambda>srl.
       and_then (tier_details srl) (\<lambda>ds.
       and_then (details_loop fits) (\<lambda>rest. Inr (ds @ rest))))))"

definition extract_solar_fit_details :: "json \<Rightarrow> error + string" where
  "extract_solar_fit_details contract =
     and_then (py_get contract ''solarFit'' (JArr [])) (\<lambda>solar_fits.
     if \<not> py_truthy solar_fits then Inr no_solar_fit
     else
       and_then (py_iter solar_fits) (\<lambda>fits.
       and_then (details_loop fits) (\<lambda>details.
       if details = [] then Inr no_solar_fit else Inr (join_str ''; '' details))))"

section \<open>Parsing the solar feed-in tiers back\<close>

definition is_digit :: "char \<Rightarrow> bool" where
  "is_digit c = (c \<in> set ''0123456789'')"

text \<open>\<^verbatim>\<open>\s\<close> and \<^verbatim>\<open>str.strip\<close>: the whitespace characters with code points below 256.\<close>

definition is_space :: "char \<Rightarrow> bool" where
  "is_space c = ((of_char c :: nat) \<in> {9, 10, 11, 12, 13, 28, 29, 30, 31, 32, 133, 160})"

definition is_rate_char :: "char \<Rightarrow> bool" where
  "is_rate_char c = (is_digit c \<or> c = CHR ''.'')"

definition strip :: "string \<Rightarrow> string" where
  "strip s = rev (dropWhile is_space (rev (dropWhile is_space s)))"

text \<open>\<^verbatim>\<open>s.split(sep)\<close> for a non-empty separator.\<close>

function split_str :: "string \<Rightarrow> string \<Rightarrow> string list" where
  "split_str sep [] = [[]]"
| "split_str sep (c # cs) =
     (if sep \<noteq> [] \<and> prefix sep (c # cs) then [] # split_str sep (drop (length sep) (c # cs))
      else (case split_str sep cs of p # ps \<Rightarrow> (c # p) # ps | [] \<Rightarrow> [[c]]))"
  by pat_completeness auto
termination
  by (relation "measure (\<lambda>(sep, s). length s)") auto

definition strip_prefix :: "string \<Rightarrow> string \<Rightarrow> string option" where
  "strip_prefix p s = (if prefix p s then Some (drop (length p) s) else None)"

text \<open>
  \<^verbatim>\<open>re.match(r"([\d.]+)c/kWh(?:\s*\(first\s+([\d.]+)kWh/day\))?", s)\<close>, giving the two
  groups. Each greedy run is followed by a literal that is not in the run's character
  class (\<open>c\<close>, \<open>(\<close>, a digit or dot, \<open>k\<close>), so no shorter run can match and
  backtracking never changes the longest run. The optional group is tried first and
  dropped if it does not match; the match need not reach the end of \<open>s\<close>.
\<close>

definition match_cap :: "string \<Rightarrow> string option" where
  "match_cap s =
     (case strip_prefix ''(first'' (dropWhile is_space s) of
        None \<Rightarrow> None
      | Some r \<Rightarrow>
          if takeWhile is_space r = [] then None
          else
            let t = dropWhile is_space r; g = takeWhile is_rate_char t
            in if g = [] then None
               else (case strip_prefix ''kWh/day)'' (dropWhile is_rate_char t) of
                       None \<Rightarrow> None
                     | Some _ \<Rightarrow> Some g))"

definition match_tier :: "string \<Rightarrow> (string \<times> string option) option" where
  "match_tier s =
     (let g = takeWhile is_rate_char s
      in if g = [] then None
         else (case strip_prefix ''c/kWh'' (dropWhile is_rate_char s) of
                 None \<Rightarrow> None
               | Some r \<Rightarrow> Some (g, match_cap r)))"

text \<open>
  \<^verbatim>\<open>float(g)\<close> for a string of digits and dots, the only strings a group holds: digits
  with at most one dot and at least one digit, anything else is a \<^verbatim>\<open>ValueError\<close>.
\<close>

definition nat_of_digits :: "string \<Rightarrow> nat" where
  "nat_of_digits ds = foldl (\<lambda>n c. 10 * n + (of_char c - 48)) 0 ds"

definition float_of_str :: "string \<Rightarrow> error + rat" where
  "float_of_str g =
     (let ip = takeWhile is_digit g; r = dropWhile is_digit g
      in case r of
           [] \<Rightarrow> if ip = [] then Inl ValueError else Inr (of_nat (nat_of_digits ip))
         | c # fp \<Rightarrow>
             if c = CHR ''.'' \<and> list_all is_digit fp \<and> (ip \<noteq> [] \<or> fp \<noteq> []) then
               Inr (of_nat (nat_of_digits ip) + of_nat (nat_of_digits fp) / 10 ^ length fp)
             else Inl ValueError)"

text \<open>The loop of \<^verbatim>\<open>_parse_solar_fit_tiers\<close> over the parts; a part that does not match is dropped.\<close>

fun parse_parts :: "string list \<Rightarrow> error + (rat \<times> rat) list" where
  "parse_parts [] = Inr []"
| "parse_parts (part # parts) =
     (case match_tier (strip part) of
        None \<Rightarrow> parse_parts parts
      | Some (g1, g2) \<Rightarrow>
          and_then (float_of_str g1) (\<lambda>rate.
          and_then (case g2 of Some g \<Rightarrow> float_of_str g | None \<Rightarrow> Inr 0) (\<lambda>volume.
          and_then (parse_parts parts) (\<lambda>rest. Inr ((rate, volume) # rest)))))"

text \<open>
  \<^verbatim>\<open>_parse_solar_fit_tiers\<close>, on the text of the \<^verbatim>\<open>"Solar FIT Details"\<close> column. The sort
  is stable, with key \<^verbatim>\<open>(t[1] == 0, -t[1])\<close>.
\<close>

definition parse_solar_fit_tiers :: "string \<Rightarrow> error + (rat \<times> rat) list" where
  "parse_solar_fit_tiers details =
     (if details = [] \<or> details = no_solar_fit then Inr []
      else
        and_then (parse_parts (split_str ''; '' details)) (\<lambda>tiers.
        Inr (sort_key (\<lambda>t. (snd t = 0, - snd t)) tiers)))"

section \<open>The solar credit of the plan calculator\<close>

text \<open>
  The calculator sheet holds, for each plan, the first-tier rate in column I, the
  second-tier rate in column J and in column Q a formula over them and the daily solar
  export in cell \<^verbatim>\<open>$B$5\<close>. The formula is kept as a term, evaluated for any export.
\<close>

datatype formula =
    FNum rat
  | FExport
  | FCell_I
  | FCell_J
  | FTimes formula formula
  | FPlus formula formula
  | FMinus formula formula
  | FMin formula formula
  | FMax formula formula

record fit_cells =
  fit_tier1_rate :: rat
  fit_tier1_vol :: rat
  fit_tier2_rate :: rat

fun fit_cells_of :: "(rat \<times> rat) list \<Rightarrow> fit_cells" where
  "fit_cells_of (t1 # t2 # ts) =
     \<lparr>fit_tier1_rate = fst t1, fit_tier1_vol = snd t1, fit_tier2_rate = fst t2\<rparr>"
| "fit_cells_of [t1] = \<lparr>fit_tier1_rate = fst t1, fit_tier1_vol = 0, fit_tier2_rate = 0\<rparr>"
| "fit_cells_of [] = \<lparr>fit_tier1_rate = 0, fit_tier1_vol = 0, fit_tier2_rate = 0\<rparr>"

definition solar_credit_formula :: "fit_cells \<Rightarrow> formula" where
  "solar_credit_formula c =
     (if 0 < fit_tier1_vol c then
        FPlus (FTimes (FMin FExport (FNum (fit_tier1_vol c))) FCell_I)
             (FTimes (FMax (FMinus FExport (FNum (fit_tier1_vol c))) (FNum 0)) FCell_J)
      else FTimes FExport FCell_I)"

fun eval :: "rat \<Rightarrow> fit_cells \<Rightarrow> formula \<Rightarrow> rat" where
  "eval export c (FNum x) = x"
| "eval export c FExport = export"
| "eval export c FCell_I = fit_tier1_rate c"
| "eval export c FCell_J = fit_tier2_rate c"
| "eval export c (FTimes a b) = eval export c a * eval export c b"
| "eval export c (FPlus a b) = eval export c a + eval export c b"
| "eval export c (FMinus a b) = eval export c a - eval export c b"
| "eval export c (FMin a b) = min (eval export c a) (eval export c b)"
| "eval export c (FMax a b) = max (eval export c a) (eval export c b)"

text \<open>The value of column Q for a plan with the given details text and a daily export.\<close>

definition solar_credit_per_day :: "string \<Rightarrow> rat \<Rightarrow> error + rat" where
  "solar_credit_per_day details export =
     and_then (parse_solar_fit_tiers details) (\<lambda>tiers.
     let c = fit_cells_of tiers in Inr (eval export c (solar_credit_formula c)))"

section \<open>Malformed plans\<close>

text \<open>
  The shapes that break \<^verbatim>\<open>plan["planData"]["contract"][0]\<close> by a missing key or an
  empty list: a plan without \<^verbatim>\<open>planData\<close>, plan data without \<^verbatim>\<open>contract\<close>, and an empty
  contract list.
\<close>

fun malformed_plan :: "json \<Rightarrow> bool" where
  "malformed_plan (JObj kvs) =
     (case map_of kvs ''planData'' of
        None \<Rightarrow> True
      | Some (JObj pd) \<Rightarrow>
          (case map_of pd ''contract'' of None \<Rightarrow> True | Some (JArr []) \<Rightarrow> True | Some _ \<Rightarrow> False)
      | Some _ \<Rightarrow> False)"
| "malformed_plan _ = False"

text \<open>Python's \<^verbatim>\<open>LookupError\<close>, the base class of \<^verbatim>\<open>KeyError\<close> and \<^verbatim>\<open>IndexError\<close>.\<close>

fun is_lookup_error :: "error \<Rightarrow> bool" where
  "is_lookup_error KeyError = True"
| "is_lookup_error IndexError = True"
| "is_lookup_error _ = False"

subsection \<open>Example plans\<close>

definition demand_and_cl_plan :: json where
  "demand_and_cl_plan = JObj [(''planData'', JObj [(''planName'', JStr ''Demand Saver''),
     (''fuelType'', JStr ''E''),
     (''contract'', JArr [JObj [
        (''tariffPeriod'', JArr [JObj [(''demandCharge'', JArr [JObj [(''amount'', JInt 30)]])]]),
        (''controlledLoad'', JArr [JObj []])]])])]"

definition cl_plan :: json where
  "cl_plan = JObj [(''planData'', JObj [(''planName'', JStr ''Hot Water''),
     (''fuelType'', JStr ''E''),
     (''contract'', JArr [JObj [
        (''tariffPeriod'', JArr [JObj [(''dailySupplyCharge'', JInt 90)]]),
        (''controlledLoad'', JArr [JObj []])]])])]"

definition plain_plan :: json where
  "plain_plan = JObj [(''planData'', JObj [(''planName'', JStr ''Basic''),
     (''fuelType'', JStr ''E''),
     (''contract'', JArr [JObj [
        (''tariffPeriod'', JArr [JObj [(''dailySupplyCharge'', JInt 90)]])]])])]"

definition no_plan_data_plan :: json where
  "no_plan_data_plan = JObj [(''planId'', JStr ''X1'')]"

definition no_contract_plan :: json where
  "no_contract_plan = JObj [(''planData'', JObj [(''planName'', JStr ''Empty''),
     (''fuelType'', JStr ''E''), (''contract'', JArr [])])]"

section \<open>Views of the raw data\<close>

text \<open>
  What the raw data holds, read without any of the program's processing: a field of a dict,
  the number in a field, whether a feed-in entry is a government one, and a contract
  with the government entries taken out of its feed-in list.
\<close>

fun field :: "json \<Rightarrow> string \<Rightarrow> json option" where
  "field (JObj kvs) k = map_of kvs k"
| "field _ k = None"

definition raw_number :: "json \<Rightarrow> string \<Rightarrow> rat option" where
  "raw_number j k = (case field j k of Some u \<Rightarrow> py_num u | None \<Rightarrow> None)"

definition is_government :: "json \<Rightarrow> bool" where
  "is_government fit = (field fit ''type'' = Some (JStr ''G''))"



subsection \<open>Example contracts\<close>

definition capped_only_contract :: json where
  "capped_only_contract = JObj [(''pricingModel'', JStr ''SR''),
     (''solarFit'', JArr [JObj [(''type'', JStr ''R''),
        (''singleTariffRates'', JArr [
           JObj [(''unitPrice'', JInt 10), (''volume'', JInt 8)],
           JObj [(''unitPrice'', JInt 0)]])]])]"

definition tiny_rate_contract :: json where
  "tiny_rate_contract = JObj [(''pricingModel'', JStr ''SR''),
     (''solarFit'', JArr [JObj [(''type'', JStr ''R''),
        (''singleTariffRates'', JArr [JObj [(''unitPrice'', JFloat 1 (- 5))]])]])]"








section \<open>Plan processing\<close>

text \<open>
  The row of \<^verbatim>\<open>process_plan\<close>, with the identity columns, the numeric columns, the
  details text and the relayed cost estimates. The remaining display columns (plan URL,
  contract term, benefit period, the controlled-load, discount, fee, payment and meter
  texts) are formatted strings that nothing below reads; they are left out, and with
  them the exceptions their formatting can raise on an ill-typed contract.
\<close>

record plan_row =
  plan_id :: json
  plan_name :: json
  retailer :: json
  distributor :: json
  tariff_type :: json
  pricing_model :: json
  supply_charge :: "rat option"
  usage_rate_min :: "rat option"
  usage_rate_max :: "rat option"
  peak_rate :: "rat option"
  offpeak_rate :: "rat option"
  solar_fit_min :: rat
  solar_fit_max :: rat
  solar_fit_details :: string
  cl_rate :: rat
  cl_supply :: rat
  est_cost_low :: json
  est_cost_medium :: json
  est_cost_high :: json
  est_cost_low_no_disc :: json
  est_cost_medium_no_disc :: json
  est_cost_high_no_disc :: json

text \<open>\<^verbatim>\<open>costs.get(usage, {}).get("yearly", {}).get(kind, None)\<close>\<close>

definition est_cost :: "json \<Rightarrow> string \<Rightarrow> string \<Rightarrow> error + json" where
  "est_cost costs usage kind =
     and_then (py_get costs usage (JObj [])) (\<lambda>by_size.
     and_then (py_get by_size ''yearly'' (JObj [])) (\<lambda>yearly.
     py_get yearly kind JNull))"

definition process_plan :: "json \<Rightarrow> json \<Rightarrow> error + plan_row" where
  "process_plan plan distributor_name =
     and_then (py_item plan ''planData'') (\<lambda>plan_data.
     and_then (py_item plan_data ''contract'') (\<lambda>contracts.
     and_then (py_first contracts) (\<lambda>contract.
     and_then (py_get plan ''pcr'' (JObj [])) (\<lambda>pcr_all.
     and_then (py_get pcr_all ''costs'' (JObj [])) (\<lambda>pcr.
     and_then (py_item plan_data ''fuelType'') (\<lambda>fuel_type.
     and_then (py_get pcr (if fuel_type = JStr ''E'' then ''electricity'' else ''gas'') (JObj []))
       (\<lambda>costs.
     and_then (py_get plan_data ''planId'' (JStr [])) (\<lambda>pid.
     and_then (py_get plan_data ''planName'' (JStr [])) (\<lambda>pname.
     and_then (py_get plan_data ''retailerName'' (JStr [])) (\<lambda>rname.
     and_then (py_get plan_data ''tariffType'' (JStr [])) (\<lambda>ttype.
     and_then (py_get contract ''pricingModel'' (JStr [])) (\<lambda>pmodel.
     and_then (extract_supply_charge contract) (\<lambda>supply.
     and_then (extract_usage_rate_min contract) (\<lambda>umin.
     and_then (extract_usage_rate_max contract) (\<lambda>umax.
     and_then (extract_tou_peak_rate contract) (\<lambda>peak.
     and_then (extract_tou_offpeak_rate contract) (\<lambda>offpeak.
     and_then (extract_solar_fit_min contract) (\<lambda>fmin.
     and_then (extract_solar_fit_max contract) (\<lambda>fmax.
     and_then (extract_solar_fit_details contract) (\<lambda>fdetails.
     and_then (extract_controlled_load_rate contract) (\<lambda>clr.
     and_then (extract_controlled_load_supply contract) (\<lambda>cls.
     and_then (est_cost costs ''small'' ''allDiscounts'') (\<lambda>c1.
     and_then (est_cost costs ''medium'' ''allDiscounts'') (\<lambda>c2.
     and_then (est_cost costs ''large'' ''allDiscounts'') (\<lambda>c3.
     and_then (est_cost costs ''small'' ''noDiscounts'') (\<lambda>c4.
     and_then (est_cost costs ''medium'' ''noDiscounts'') (\<lambda>c5.
     and_then (est_cost costs ''large'' ''noDiscounts'') (\<lambda>c6.
     Inr \<lparr>plan_id = pid, plan_name = pname, retailer = rname,
          distributor = (if py_truthy distributor_name then distributor_name else JStr ''N/A''),
          tariff_type = ttype, pricing_model = pmodel,
          supply_charge = supply, usage_rate_min = umin, usage_rate_max = umax,
          peak_rate = peak, offpeak_rate = offpeak,
          solar_fit_min = fmin, solar_fit_max = fmax, solar_fit_details = fdetails,
          cl_rate = clr, cl_supply = cls,
          est_cost_low = c1, est_cost_medium = c2, est_cost_high = c3,
          est_cost_low_no_disc = c4, est_cost_medium_no_disc = c5,
          est_cost_high_no_disc = c6\<rparr>))))))))))))))))))))))))))))"

text \<open>
  Step 4 of \<^verbatim>\<open>main\<close>: each plan is processed inside \<^verbatim>\<open>try\<close>; on any exception the
  error count goes up and a warning with the plan's name and the exception is printed.
  The lookups of the handler and the one before the \<^verbatim>\<open>try\<close> are not guarded.
\<close>

record step4 =
  all_plans_data :: "plan_row list"
  errors :: nat
  warnings :: "(json \<times> error) list"

fun process_loop :: "json list \<Rightarrow> step4 \<Rightarrow> error + step4" where
  "process_loop [] st = Inr st"
| "process_loop (plan # plans) st =
     and_then (py_get plan ''_distributor_name'' (JStr ''N/A'')) (\<lambda>dist_name.
     case process_plan plan dist_name of
       Inr row \<Rightarrow> process_loop plans (st\<lparr>all_plans_data := all_plans_data st @ [row]\<rparr>)
     | Inl e \<Rightarrow>
         and_then (py_get plan ''planData'' (JObj [])) (\<lambda>plan_data.
         and_then (py_get plan_data ''planName'' (JStr ''Unknown'')) (\<lambda>name.
         process_loop plans
           (st\<lparr>errors := errors st + 1, warnings := warnings st @ [(name, e)]\<rparr>))))"

text \<open>The name a warning shows for a plan: its \<^verbatim>\<open>planName\<close> when the raw data has one.\<close>

definition display_name :: "json \<Rightarrow> json" where
  "display_name plan =
     (case field plan ''planData'' of
        None \<Rightarrow> JStr ''Unknown''
      | Some plan_data \<Rightarrow>
          (case field plan_data ''planName'' of None \<Rightarrow> JStr ''Unknown'' | Some n \<Rightarrow> n))"

text \<open>A plan that is a dict whose plan data is absent or a dict: the handler of step 4 can name it.\<close>

fun loop_safe :: "json \<Rightarrow> bool" where
  "loop_safe (JObj kvs) =
     (case map_of kvs ''planData'' of None \<Rightarrow> True | Some (JObj pd) \<Rightarrow> True | Some _ \<Rightarrow> False)"
| "loop_safe _ = False"

section \<open>Distributor selection\<close>

text \<open>
  A distributor as \<^verbatim>\<open>fetch_distributors\<close> returns it, with the plan count a probe adds.
  The network calls are parameters: \<open>distributors\<close> is the list \<^verbatim>\<open>fetch_distributors\<close>
  returned, \<open>probe\<close> gives the result of \<^verbatim>\<open>probe_distributor_plans\<close> for a distributor id
  (the plan count, or \<open>-1\<close> on any failure), and \<open>inputs\<close> are the lines still to be read
  from standard input.
\<close>

record distributor =
  dist_id :: string
  dist_name :: string
  plan_count :: "int option"

text \<open>The probing loop: a distributor is kept, with its count, only when the count is positive.\<close>

fun probe_all :: "(string \<Rightarrow> int) \<Rightarrow> distributor list \<Rightarrow> distributor list" where
  "probe_all probe [] = []"
| "probe_all probe (d # ds) =
     (let count = probe (dist_id d)
      in if 0 < count then d\<lparr>plan_count := Some count\<rparr> # probe_all probe ds
         else probe_all probe ds)"

definition ascii_upper :: "char \<Rightarrow> char" where
  "ascii_upper c =
     (let n = (of_char c :: nat) in if 97 \<le> n \<and> n \<le> 122 then char_of (n - 32) else c)"

definition ascii_lower :: "char \<Rightarrow> char" where
  "ascii_lower c =
     (let n = (of_char c :: nat) in if 65 \<le> n \<and> n \<le> 90 then char_of (n + 32) else c)"

text \<open>
  \<^verbatim>\<open>int(s)\<close> for a stripped string: an optional sign, then digits in groups joined by
  single underscores; \<open>None\<close> stands for the \<^verbatim>\<open>ValueError\<close>.
\<close>

fun digit_groups :: "string \<Rightarrow> bool" where
  "digit_groups [] = False"
| "digit_groups [c] = is_digit c"
| "digit_groups (c # d # r) =
     (is_digit c \<and> (if d = CHR ''_'' then digit_groups r else digit_groups (d # r)))"

definition py_int :: "string \<Rightarrow> int option" where
  "py_int s =
     (let neg = (take 1 s = ''-'');
          body = (if take 1 s = ''-'' \<or> take 1 s = ''+'' then drop 1 s else s)
      in if digit_groups body then
           Some ((if neg then - 1 else 1) * int (nat_of_digits (filter is_digit body)))
         else None)"

text \<open>
  The prompt loop. A letter outside ASCII never becomes \<open>A\<close> or part of a number
  when upper-cased, so upper-casing the ASCII letters decides the same choices.
  Reading past the end of the input raises \<^verbatim>\<open>EOFError\<close>.
\<close>

fun choice_loop :: "distributor list \<Rightarrow> string list \<Rightarrow> error + distributor list" where
  "choice_loop available [] = Inl EOFError"
| "choice_loop available (line # inputs) =
     (let choice = map ascii_upper (strip line)
      in if choice = ''A'' then Inr available
         else (case py_int choice of
                 None \<Rightarrow> choice_loop available inputs
               | Some n \<Rightarrow>
                   let idx = n - 1
                   in if 0 \<le> idx \<and> idx < int (length available) then Inr [available ! nat idx]
                      else choice_loop available inputs))"

definition select_distributor_interactive ::
  "distributor list \<Rightarrow> (string \<Rightarrow> int) \<Rightarrow> string list \<Rightarrow> error + distributor list" where
  "select_distributor_interactive distributors probe inputs =
     (if distributors = [] then Inr []
      else if length distributors = 1 then Inr distributors
      else
        let available = probe_all probe distributors
        in if available = [] then Inr []
           else if length available = 1 then Inr available
           else choice_loop available inputs)"

text \<open>
  Step 2 of \<^verbatim>\<open>main\<close>, for the value of \<^verbatim>\<open>--dist\<close> (\<open>None\<close> when absent). It ends in
  \<^verbatim>\<open>sys.exit(1)\<close> when nothing is selected, and otherwise hands the selected distributors
  to the fetch of step 3, which queries the plans of each \<open>dist_id\<close>.
\<close>

datatype resolution = Exit | Fetch "distributor list"

definition auto_distributor :: distributor where
  "auto_distributor = \<lparr>dist_id = [], dist_name = ''Auto'', plan_count = Some 0\<rparr>"

definition named_distributor :: "distributor list \<Rightarrow> string \<Rightarrow> distributor" where
  "named_distributor distributors did =
     \<lparr>dist_id = did,
      dist_name = (case filter (\<lambda>d. dist_id d = did) distributors of
                     d # _ \<Rightarrow> dist_name d
                   | [] \<Rightarrow> ''ID '' @ did),
      plan_count = Some 0\<rparr>"

definition determine_distributors ::
  "string option \<Rightarrow> distributor list \<Rightarrow> (string \<Rightarrow> int) \<Rightarrow> string list \<Rightarrow> error + resolution" where
  "determine_distributors arg distributors probe inputs =
     and_then
       (case arg of
          None \<Rightarrow> select_distributor_interactive distributors probe inputs
        | Some a \<Rightarrow>
            if a \<noteq> [] \<and> map ascii_lower a = ''all'' then
              (let selected = probe_all probe distributors
               in Inr (if selected = [] then [auto_distributor] else selected))
            else if a \<noteq> [] then Inr [named_distributor distributors a]
            else select_distributor_interactive distributors probe inputs)
       (\<lambda>selected. Inr (if selected = [] then Exit else Fetch selected))"

subsection \<open>Example distributors\<close>

definition essential :: distributor where
  "essential = \<lparr>dist_id = ''12'', dist_name = ''Essential Energy'', plan_count = None\<rparr>"

definition endeavour :: distributor where
  "endeavour = \<lparr>dist_id = ''13'', dist_name = ''Endeavour Energy'', plan_count = None\<rparr>"

definition no_plans_probe :: "string \<Rightarrow> int" where
  "no_plans_probe did = (if did = ''12'' then 0 else - 1)"

section \<open>The clauses of a feed-in description\<close>

text \<open>
  The description text as the specification words it: a sequence of clauses
  \<open><rate>c/kWh\<close> or \<open><rate>c/kWh (first <cap>kWh/day)\<close>, joined by a semicolon and a
  space. A \<open><rate>\<close> or \<open><cap>\<close> is a decimal numeral: digits with at most one dot and
  at least one digit, whose value is the digits read as one number, divided by ten for
  each digit after the dot.
\<close>

datatype clause = Flat string | Capped string string

definition is_decimal :: "string \<Rightarrow> bool" where
  "is_decimal s =
     (list_all is_rate_char s \<and> length (filter (\<lambda>c. c = CHR ''.'') s) \<le> 1 \<and> list_ex is_digit s)"

definition decimal_value :: "string \<Rightarrow> rat" where
  "decimal_value s =
     of_nat (nat_of_digits (filter is_digit s)) / 10 ^ length (drop 1 (dropWhile is_digit s))"

fun render :: "clause \<Rightarrow> string" where
  "render (Flat r) = r @ ''c/kWh''"
| "render (Capped r c) = r @ ''c/kWh (first '' @ c @ ''kWh/day)''"

fun clause_ok :: "clause \<Rightarrow> bool" where
  "clause_ok (Flat r) = is_decimal r"
| "clause_ok (Capped r c) = (is_decimal r \<and> is_decimal c)"

fun clause_tier :: "clause \<Rightarrow> rat \<times> rat" where
  "clause_tier (Flat r) = (decimal_value r, 0)"
| "clause_tier (Capped r c) = (decimal_value r, decimal_value c)"

section \<open>Structured feed-in tiers\<close>

text \<open>
  The structured tiers of a contract: for each retailer entry, each tier with a positive
  price, as (price, cap), the cap being \<open>0\<close> unless the tier has a positive volume.
\<close>

definition tier_of :: "json \<Rightarrow> (rat \<times> rat) option" where
  "tier_of sr =
     (case (raw_number sr ''unitPrice'', raw_number sr ''volume'') of
        (Some p, v) \<Rightarrow>
          if 0 < p then Some (p, case v of Some c \<Rightarrow> if 0 < c then c else 0 | None \<Rightarrow> 0)
          else None
      | (None, v) \<Rightarrow> None)"

definition fit_tiers :: "json \<Rightarrow> (rat \<times> rat) list" where
  "fit_tiers fit =
     (if is_government fit then []
      else (case field fit ''singleTariffRates'' of
              Some (JArr srs) \<Rightarrow> List.map_filter tier_of srs
            | _ \<Rightarrow> []))"

text \<open>A tier whose price and volume, where present, are ints.\<close>

fun int_field :: "json \<Rightarrow> string \<Rightarrow> bool" where
  "int_field (JObj kvs) k = (case map_of kvs k of None \<Rightarrow> True | Some (JInt i) \<Rightarrow> True | Some _ \<Rightarrow> False)"
| "int_field _ k = False"

definition int_tier :: "json \<Rightarrow> bool" where
  "int_tier sr = (int_field sr ''unitPrice'' \<and> int_field sr ''volume'')"

definition int_entry :: "json \<Rightarrow> bool" where
  "int_entry fit =
     (is_government fit \<or>
      (case fit of
         JObj kvs \<Rightarrow>
           (case map_of kvs ''singleTariffRates'' of
              None \<Rightarrow> True
            | Some (JArr srs) \<Rightarrow> list_all int_tier srs
            | Some _ \<Rightarrow> False)
       | _ \<Rightarrow> False))"

section \<open>Properties of the plan filter\<close>

lemma filter_loop_counts:
  "filter_loop icl idem plans filtered stats = Inr (filtered', stats') \<Longrightarrow>
     total stats' = total stats \<and> kept stats' = kept stats \<and>
     demand_filtered stats' = demand_filtered stats
        + length (filter (\<lambda>p. \<not> idem \<and> plan_has_demand_charge p = Inr True) plans) \<and>
     controlled_load_filtered stats' = controlled_load_filtered stats
        + length (filter (\<lambda>p. \<not> (\<not> idem \<and> plan_has_demand_charge p = Inr True)
             \<and> \<not> icl \<and> plan_has_controlled_load p = Inr True) plans) \<and>
     filtered' = filtered @ filter (\<lambda>p. \<not> (\<not> idem \<and> plan_has_demand_charge p = Inr True)
             \<and> \<not> (\<not> icl \<and> plan_has_controlled_load p = Inr True)) plans"
proof (induction plans arbitrary: filtered stats)
  case Nil
  then show ?case by simp
next
  case (Cons plan plans)
  show ?case
  proof (cases "\<not> idem \<and> plan_has_demand_charge plan = Inr True")
    case True
    with Cons.prems have
      "filter_loop icl idem plans filtered (stats\<lparr>demand_filtered := demand_filtered stats + 1\<rparr>)
         = Inr (filtered', stats')"
      by simp
    from Cons.IH [OF this] True show ?thesis by simp
  next
    case nd: False
    show ?thesis
    proof (cases "\<not> icl \<and> plan_has_controlled_load plan = Inr True")
      case True
      with nd Cons.prems have
        "filter_loop icl idem plans filtered
           (stats\<lparr>controlled_load_filtered := controlled_load_filtered stats + 1\<rparr>)
         = Inr (filtered', stats')"
        by (auto split: sum.splits bool.splits if_splits)
      from Cons.IH [OF this] True nd show ?thesis by simp
    next
      case False
      with nd Cons.prems have
        "filter_loop icl idem plans (filtered @ [plan]) stats = Inr (filtered', stats')"
        by (auto split: sum.splits bool.splits if_splits)
      from Cons.IH [OF this] False nd show ?thesis by simp
    qed
  qed
qed

lemma length_three_way:
  "length (filter P xs) + length (filter (\<lambda>x. \<not> P x \<and> Q x) xs)
     + length (filter (\<lambda>x. \<not> P x \<and> \<not> Q x) xs) = length xs"
  by (induction xs) auto

text \<open>The filter returns whenever every gate it calls returns.\<close>

lemma filter_loop_returns:
  "\<forall>p \<in> set plans. (\<exists>d. plan_has_demand_charge p = Inr d) \<and> (\<exists>c. plan_has_controlled_load p = Inr c)
     \<Longrightarrow> \<exists>r. filter_loop icl idem plans filtered stats = Inr r"
proof (induction plans arbitrary: filtered stats)
  case Nil
  then show ?case by simp
next
  case (Cons plan plans)
  from Cons.prems obtain d c where
    g: "plan_has_demand_charge plan = Inr d" "plan_has_controlled_load plan = Inr c"
    by auto
  from Cons.prems have rest:
    "\<forall>p \<in> set plans. (\<exists>d. plan_has_demand_charge p = Inr d) \<and> (\<exists>c. plan_has_controlled_load p = Inr c)"
    by simp
  show ?case
    using g Cons.IH [OF rest] by (cases d; cases c; cases icl; cases idem; simp)
qed

lemma filter_plans_returns:
  "\<forall>p \<in> set plans. (\<exists>d. plan_has_demand_charge p = Inr d) \<and> (\<exists>c. plan_has_controlled_load p = Inr c)
     \<Longrightarrow> \<exists>r. filter_plans plans icl idem = Inr r"
proof -
  assume "\<forall>p \<in> set plans. (\<exists>d. plan_has_demand_charge p = Inr d) \<and> (\<exists>c. plan_has_controlled_load p = Inr c)"
  from filter_loop_returns [OF this] obtain r where
    "filter_loop icl idem plans []
       \<lparr>total = length plans, demand_filtered = 0, controlled_load_filtered = 0, kept = 0\<rparr> = Inr r"
    by blast
  then show ?thesis by (cases r) (simp add: filter_plans_def)
qed

text \<open>
  C2. Whenever the filter returns, for either setting of each switch:
  kept + demand_filtered + controlled_load_filtered = total, where total is the
  length of the input and kept the length of the returned list. Each plan is counted
  once: under the demand gate if that gate is on and fires, and under the
  controlled-load gate only if the demand gate did not take it.
\<close>

theorem filter_plans_stats_complete:
  "filter_plans plans include_controlled_load include_demand = Inr (filtered, stats) \<Longrightarrow>
     kept stats + demand_filtered stats + controlled_load_filtered stats = total stats \<and>
     total stats = length plans \<and>
     kept stats = length filtered \<and>
     demand_filtered stats =
       length (filter (\<lambda>p. \<not> include_demand \<and> plan_has_demand_charge p = Inr True) plans) \<and>
     controlled_load_filtered stats =
       length (filter (\<lambda>p. \<not> (\<not> include_demand \<and> plan_has_demand_charge p = Inr True)
          \<and> \<not> include_controlled_load \<and> plan_has_controlled_load p = Inr True) plans)"
proof -
  let ?D = "\<lambda>p. \<not> include_demand \<and> plan_has_demand_charge p = Inr True"
  let ?C = "\<lambda>p. \<not> include_controlled_load \<and> plan_has_controlled_load p = Inr True"
  let ?s0 = "\<lparr>total = length plans, demand_filtered = 0, controlled_load_filtered = 0, kept = 0\<rparr>"
  assume r: "filter_plans plans include_controlled_load include_demand = Inr (filtered, stats)"
  then obtain stats' where
    loop: "filter_loop include_controlled_load include_demand plans [] ?s0 = Inr (filtered, stats')"
    and st: "stats = stats'\<lparr>kept := length filtered\<rparr>"
    by (auto simp: filter_plans_def split: sum.splits)
  from filter_loop_counts [OF loop] have
    t: "total stats' = length plans"
    and d: "demand_filtered stats' = length (filter ?D plans)"
    and c: "controlled_load_filtered stats' = length (filter (\<lambda>p. \<not> ?D p \<and> ?C p) plans)"
    and f: "filtered = filter (\<lambda>p. \<not> ?D p \<and> \<not> ?C p) plans"
    by simp_all
  have "length (filter ?D plans) + length (filter (\<lambda>p. \<not> ?D p \<and> ?C p) plans)
          + length (filter (\<lambda>p. \<not> ?D p \<and> \<not> ?C p) plans) = length plans"
    by (rule length_three_way)
  with f have "length filtered + length (filter ?D plans)
          + length (filter (\<lambda>p. \<not> ?D p \<and> ?C p) plans) = length plans"
    by simp
  with t d c st show ?thesis by simp
qed

theorem filter_plans_stats_complete_witness:
  "filter_plans [demand_and_cl_plan, cl_plan, plain_plan] False False
     = Inr ([plain_plan], \<lparr>total = 3, demand_filtered = 1, controlled_load_filtered = 1, kept = 1\<rparr>)
   \<and> plan_has_demand_charge demand_and_cl_plan = Inr True
   \<and> plan_has_controlled_load demand_and_cl_plan = Inr True
   \<and> length (filter (\<lambda>p. \<not> False \<and> plan_has_demand_charge p = Inr True)
         [demand_and_cl_plan, cl_plan, plain_plan]) = 1"
proof -
  have h: "filter_plans [demand_and_cl_plan, cl_plan, plain_plan] False False
     = Inr ([plain_plan], \<lparr>total = 3, demand_filtered = 1, controlled_load_filtered = 1, kept = 1\<rparr>)"
    by code_simp
  have d: "plan_has_demand_charge demand_and_cl_plan = Inr True"
    by code_simp
  have c: "plan_has_controlled_load demand_and_cl_plan = Inr True"
    by code_simp
  from filter_plans_stats_complete [OF h] h d c show ?thesis by simp
qed

lemma gate_error_aborts_loop:
  "p \<in> set plans \<Longrightarrow>
   (\<not> idem \<and> (\<exists>e. plan_has_demand_charge p = Inl e)) \<or>
   (idem \<and> \<not> icl \<and> (\<exists>e. plan_has_controlled_load p = Inl e)) \<Longrightarrow>
   \<exists>e. filter_loop icl idem plans filtered stats = Inl e"
proof (induction plans arbitrary: filtered stats)
  case Nil
  then show ?case by simp
next
  case (Cons q plans)
  show ?case
  proof (cases "p = q")
    case True
    with Cons.prems(2) show ?thesis by auto
  next
    case False
    with Cons.prems have "p \<in> set plans" by simp
    from Cons.IH [OF this Cons.prems(2)] show ?thesis
      by (auto split: sum.splits bool.splits)
  qed
qed

lemma malformed_primary_contract:
  "malformed_plan p \<Longrightarrow> \<exists>e. primary_contract p = Inl e \<and> is_lookup_error e"
proof (cases p)
  case (JObj kvs)
  assume m: "malformed_plan p"
  show ?thesis
  proof (cases "map_of kvs ''planData''")
    case None
    with JObj show ?thesis by (simp add: primary_contract_def)
  next
    case (Some pd)
    with m JObj obtain pdl where pd: "pd = JObj pdl"
      by (cases pd) simp_all
    show ?thesis
    proof (cases "map_of pdl ''contract''")
      case None
      with JObj Some pd show ?thesis by (simp add: primary_contract_def)
    next
      case c: (Some cs)
      with m JObj Some pd have "cs = JArr []"
        by (cases cs) (simp_all split: list.splits)
      with c JObj Some pd show ?thesis by (simp add: primary_contract_def)
    qed
  qed
qed simp_all

lemma malformed_gates:
  "malformed_plan p \<Longrightarrow>
     (\<exists>e. plan_has_demand_charge p = Inl e \<and> is_lookup_error e) \<and>
     (\<exists>e. plan_has_controlled_load p = Inl e \<and> is_lookup_error e)"
proof -
  assume "malformed_plan p"
  from malformed_primary_contract [OF this] obtain e where
    "primary_contract p = Inl e" "is_lookup_error e" by blast
  then show ?thesis
    by (simp add: plan_has_demand_charge_def plan_has_controlled_load_def)
qed

text \<open>
  C10, as stated: a malformed plan in the batch makes \<^verbatim>\<open>filter_plans\<close> raise. This fails
  when both switches are on, since then no gate is called and the plan is kept.
\<close>

theorem filter_plans_malformed_kept_counterexample:
  "malformed_plan no_plan_data_plan \<and>
   filter_plans [no_plan_data_plan] True True =
     Inr ([no_plan_data_plan],
          \<lparr>total = 1, demand_filtered = 0, controlled_load_filtered = 0, kept = 1\<rparr>)"
  by code_simp

text \<open>
  C10, amended. For a plan without \<^verbatim>\<open>planData\<close>, without a contract list or with an
  empty one, both gates raise a lookup error (\<^verbatim>\<open>KeyError\<close> or \<^verbatim>\<open>IndexError\<close>). If such a
  plan is in the batch and at least one of the two switches is off (the program calls
  the filter with \<^verbatim>\<open>include_demand=False\<close>), \<^verbatim>\<open>filter_plans\<close> raises: it returns no list
  and no stats, and nothing is skipped.
\<close>

theorem filter_plans_aborts_on_malformed:
  "malformed_plan p \<Longrightarrow>
     (\<exists>e. plan_has_demand_charge p = Inl e \<and> is_lookup_error e) \<and>
     (\<exists>e. plan_has_controlled_load p = Inl e \<and> is_lookup_error e) \<and>
     (p \<in> set plans \<and> \<not> (include_demand \<and> include_controlled_load) \<longrightarrow>
        (\<exists>e. filter_plans plans include_controlled_load include_demand = Inl e))"
proof -
  assume m: "malformed_plan p"
  note g = malformed_gates [OF m]
  have "\<exists>e. filter_plans plans include_controlled_load include_demand = Inl e"
    if "p \<in> set plans" and sw: "\<not> (include_demand \<and> include_controlled_load)"
  proof -
    from g sw have
      "(\<not> include_demand \<and> (\<exists>e. plan_has_demand_charge p = Inl e)) \<or>
       (include_demand \<and> \<not> include_controlled_load \<and> (\<exists>e. plan_has_controlled_load p = Inl e))"
      by blast
    from gate_error_aborts_loop [OF \<open>p \<in> set plans\<close> this] obtain e where
      "filter_loop include_controlled_load include_demand plans []
         \<lparr>total = length plans, demand_filtered = 0, controlled_load_filtered = 0, kept = 0\<rparr>
       = Inl e"
      by blast
    then show ?thesis by (simp add: filter_plans_def)
  qed
  with g show ?thesis by blast
qed

theorem filter_plans_aborts_on_malformed_witness:
  "malformed_plan no_contract_plan \<and>
   plan_has_demand_charge no_contract_plan = Inl IndexError \<and>
   plan_has_controlled_load no_contract_plan = Inl IndexError \<and>
   no_contract_plan \<in> set [plain_plan, no_contract_plan, cl_plan] \<and>
   (\<exists>e. filter_plans [plain_plan, no_contract_plan, cl_plan] False False = Inl e)"
proof -
  have m: "malformed_plan no_contract_plan" by code_simp
  have d: "plan_has_demand_charge no_contract_plan = Inl IndexError" by code_simp
  have c: "plan_has_controlled_load no_contract_plan = Inl IndexError" by code_simp
  from filter_plans_aborts_on_malformed [OF m, of "[plain_plan, no_contract_plan, cl_plan]" False False]
    m d c show ?thesis by simp
qed

section \<open>Government feed-in entries\<close>

lemma and_then_Inr_iff: "and_then m f = Inr y \<longleftrightarrow> (\<exists>x. m = Inr x \<and> f x = Inr y)"
  by (cases m) simp_all

lemma government_type: "is_government fit \<Longrightarrow> py_get fit ''type'' JNull = Inr (JStr ''G'')"
  by (cases fit) (simp_all add: is_government_def)














section \<open>The solar credit\<close>

lemma solar_credit_value:
  "eval export (fit_cells_of tiers) (solar_credit_formula (fit_cells_of tiers)) =
     (case tiers of
        [] \<Rightarrow> 0
      | [t1] \<Rightarrow> export * fst t1
      | t1 # t2 # ts \<Rightarrow>
          if 0 < snd t1 then min export (snd t1) * fst t1 + max (export - snd t1) 0 * fst t2
          else export * fst t1)"
  by (cases tiers rule: fit_cells_of.cases) (simp_all add: solar_credit_formula_def)

text \<open>
  C3. The credit is \<open>min(export, cap) * tier1Rate + max(export - cap, 0) * tier2Rate\<close>
  when the first parsed tier has a cap. A plan paying 10c for the first 8 kWh and nothing
  after it has the details "10c/kWh (first 8kWh/day)" (the zero tier is not listed), one
  capped tier; with an export of 12 the sheet credits \<open>12 * 10 = 120\<close>, not
  \<open>min(12, 8) * 10 = 80\<close>.
\<close>

theorem single_capped_tier_credited_flat:
  "extract_solar_fit_details capped_only_contract = Inr ''10c/kWh (first 8kWh/day)'' \<and>
   parse_solar_fit_tiers ''10c/kWh (first 8kWh/day)'' = Inr [(10, 8)] \<and>
   solar_credit_per_day ''10c/kWh (first 8kWh/day)'' 12 = Inr 120 \<and>
   min 12 8 * 10 + max (12 - 8) 0 * 0 = (80 :: rat)"
  by code_simp

text \<open>
  C5. A tier the formatter writes is not always read back: a price of \<open>0.00001\<close> is
  written as "1e-05c/kWh", which the pattern of the parser does not match, and
  the tier is lost.
\<close>

theorem tiny_rate_lost_on_reparse:
  "extract_solar_fit_details tiny_rate_contract = Inr ''1e-05c/kWh'' \<and>
   collect_solar_fit_rates tiny_rate_contract = Inr [1 / 100000] \<and>
   parse_solar_fit_tiers ''1e-05c/kWh'' = Inr []"
  by code_simp

section \<open>Flat feed-in rates\<close>










section \<open>GST on tariff rates, none on feed-in rates\<close>



lemma field_get: "field j k = Some v \<Longrightarrow> py_get j k d = Inr v"
  by (cases j) simp_all

lemma field_none_get: "field (JObj kvs) k = None \<Longrightarrow> py_get (JObj kvs) k d = Inr d"
  by simp















section \<open>Malformed plans in step 4\<close>

lemma process_plan_no_contract:
  "primary_contract p = Inl e \<Longrightarrow> process_plan p d = Inl e"
  unfolding primary_contract_def process_plan_def
  by (cases "py_item p ''planData''"; simp;
      cases "py_item (projr (py_item p ''planData'')) ''contract''"; simp)

lemma malformed_display_name:
  "malformed_plan p \<Longrightarrow>
     and_then (py_get p ''planData'' (JObj [])) (\<lambda>plan_data.
       py_get plan_data ''planName'' (JStr ''Unknown'')) = Inr (display_name p)"
proof (cases p)
  case (JObj kvs)
  assume m: "malformed_plan p"
  show ?thesis
  proof (cases "map_of kvs ''planData''")
    case None
    with JObj show ?thesis by (simp add: display_name_def)
  next
    case (Some pd)
    with m JObj obtain pdl where "pd = JObj pdl" by (cases pd) simp_all
    with JObj Some show ?thesis by (simp add: display_name_def split: option.splits)
  qed
qed simp_all

lemma malformed_skipped:
  assumes "malformed_plan p"
  shows "\<exists>e. is_lookup_error e \<and> (\<forall>d. process_plan p d = Inl e) \<and>
           process_loop (p # plans) st =
             process_loop plans
               (st\<lparr>errors := errors st + 1, warnings := warnings st @ [(display_name p, e)]\<rparr>)"
proof -
  from malformed_primary_contract [OF assms] obtain e where
    e: "primary_contract p = Inl e" "is_lookup_error e" by blast
  then have pp: "\<And>d. process_plan p d = Inl e" by (simp add: process_plan_no_contract)
  from assms obtain kvs where p: "p = JObj kvs" by (cases p) simp_all
  from malformed_display_name [OF assms] obtain pd where
    pd: "py_get p ''planData'' (JObj []) = Inr pd"
        "py_get pd ''planName'' (JStr ''Unknown'') = Inr (display_name p)"
    by (auto simp: and_then_Inr_iff)
  from p pp pd have
    "process_loop (p # plans) st =
       process_loop plans
         (st\<lparr>errors := errors st + 1, warnings := warnings st @ [(display_name p, e)]\<rparr>)"
    by simp
  with e(2) pp show ?thesis by blast
qed

lemma process_loop_accounts:
  "process_loop plans st = Inr st' \<Longrightarrow>
     length (all_plans_data st') + errors st' = length (all_plans_data st) + errors st + length plans"
proof (induction plans arbitrary: st)
  case Nil
  then show ?case by simp
next
  case (Cons plan plans)
  from Cons.prems obtain dn where
    dn: "py_get plan ''_distributor_name'' (JStr ''N/A'') = Inr dn"
    by (auto simp: and_then_Inr_iff)
  show ?case
  proof (cases "process_plan plan dn")
    case (Inr row)
    with Cons.prems dn have
      "process_loop plans (st\<lparr>all_plans_data := all_plans_data st @ [row]\<rparr>) = Inr st'"
      by simp
    from Cons.IH [OF this] show ?thesis by simp
  next
    case (Inl e)
    with Cons.prems dn obtain name where
      "process_loop plans (st\<lparr>errors := errors st + 1, warnings := warnings st @ [(name, e)]\<rparr>)
         = Inr st'"
      by (auto simp: and_then_Inr_iff)
    from Cons.IH [OF this] show ?thesis by simp
  qed
qed

text \<open>The loop returns when every plan is a dict whose plan data is absent or a dict.\<close>

lemma process_loop_returns:
  "list_all loop_safe plans \<Longrightarrow> \<exists>st'. process_loop plans st = Inr st'"
proof (induction plans arbitrary: st)
  case Nil
  show ?case by simp
next
  case (Cons plan plans)
  then obtain kvs where p: "plan = JObj kvs" by (cases plan) simp_all
  from Cons.prems p have
    h: "\<exists>name. and_then (py_get plan ''planData'' (JObj [])) (\<lambda>plan_data.
          py_get plan_data ''planName'' (JStr ''Unknown'')) = Inr name"
    by (cases "map_of kvs ''planData''") (auto split: json.splits)
  from Cons.prems have rest: "list_all loop_safe plans" by simp
  show ?case
  proof (cases "process_plan plan (case map_of kvs ''_distributor_name'' of None \<Rightarrow> JStr ''N/A'' | Some v \<Rightarrow> v)")
    case (Inr row)
    with p Cons.IH [OF rest] show ?thesis by (simp split: option.splits)
  next
    case (Inl e)
    from h obtain name pd where
      "py_get plan ''planData'' (JObj []) = Inr pd" "py_get pd ''planName'' (JStr ''Unknown'') = Inr name"
      by (auto simp: and_then_Inr_iff)
    with p Inl Cons.IH [OF rest] show ?thesis by (simp split: option.splits)
  qed
qed

text \<open>
  C7, as stated, has normalization signal a \<^verbatim>\<open>MalformedPlanError\<close> and never a raw lookup
  failure. The program has no such exception: \<^verbatim>\<open>process_plan\<close> raises the \<^verbatim>\<open>KeyError\<close> or
  \<^verbatim>\<open>IndexError\<close> of the failed lookup itself.
\<close>

theorem malformed_plan_raises_lookup_error_counterexample:
  "malformed_plan no_plan_data_plan \<and>
   process_plan no_plan_data_plan (JStr ''Ausgrid'') = Inl KeyError \<and>
   malformed_plan no_contract_plan \<and>
   process_plan no_contract_plan (JStr ''Ausgrid'') = Inl IndexError"
  by code_simp

text \<open>
  C7, amended. For a plan without \<^verbatim>\<open>planData\<close>, without a contract list or with an empty
  one, \<^verbatim>\<open>process_plan\<close> raises a lookup error (\<^verbatim>\<open>KeyError\<close> or \<^verbatim>\<open>IndexError\<close>). The loop of
  step 4 catches it: the plan adds no row, the error count goes up by one, the warning
  names the plan by its \<^verbatim>\<open>planName\<close> when it has one (\<^verbatim>\<open>Unknown\<close> otherwise), and the loop
  goes on with the remaining plans. When the loop ends, rows and errors together
  account for every plan.
\<close>

theorem malformed_plan_skipped_and_counted:
  "malformed_plan p \<Longrightarrow>
     (\<exists>e. is_lookup_error e \<and> (\<forall>d. process_plan p d = Inl e) \<and>
        process_loop (p # plans) st =
          process_loop plans
            (st\<lparr>errors := errors st + 1, warnings := warnings st @ [(display_name p, e)]\<rparr>)) \<and>
     (process_loop (p # plans) st = Inr st' \<longrightarrow>
        length (all_plans_data st') + errors st'
          = length (all_plans_data st) + errors st + length plans + 1)"
  using malformed_skipped [of p plans st] process_loop_accounts [of "p # plans" st st']
  by simp


theorem malformed_plan_skipped_and_counted_witness:
  "malformed_plan no_contract_plan \<and>
   display_name no_contract_plan = JStr ''Empty'' \<and>
   (\<exists>e. is_lookup_error e \<and> process_plan no_contract_plan (JStr ''Ausgrid'') = Inl e) \<and>
   (case process_loop [no_contract_plan, plain_plan]
           \<lparr>all_plans_data = [], errors = 0, warnings = []\<rparr> of
      Inl e \<Rightarrow> False
    | Inr st \<Rightarrow> errors st = 1 \<and> map plan_name (all_plans_data st) = [JStr ''Basic''] \<and>
               warnings st = [(JStr ''Empty'', IndexError)])"
proof -
  have m: "malformed_plan no_contract_plan" by code_simp
  have n: "display_name no_contract_plan = JStr ''Empty''" by code_simp
  have l: "(case process_loop [no_contract_plan, plain_plan]
           \<lparr>all_plans_data = [], errors = 0, warnings = []\<rparr> of
      Inl e \<Rightarrow> False
    | Inr st \<Rightarrow> errors st = 1 \<and> map plan_name (all_plans_data st) = [JStr ''Basic''] \<and>
               warnings st = [(JStr ''Empty'', IndexError)])"
    by code_simp
  from malformed_plan_skipped_and_counted
         [OF m, of "[plain_plan]" "\<lparr>all_plans_data = [], errors = 0, warnings = []\<rparr>"]
  have "\<exists>e. is_lookup_error e \<and> process_plan no_contract_plan (JStr ''Ausgrid'') = Inl e"
    by blast
  with m n l show ?thesis by simp
qed

section \<open>No distributor with plans\<close>

lemma probe_all_none:
  "list_all (\<lambda>d. probe (dist_id d) \<le> 0) ds \<Longrightarrow> probe_all probe ds = []"
  by (induction ds) (simp_all add: Let_def)

text \<open>
  C8, as stated, lets no fetch proceed with an unscoped distributor when no probed
  distributor has plans. With \<^verbatim>\<open>--dist all\<close> the program then selects the distributor
  \<^verbatim>\<open>{"id": "", "name": "Auto"}\<close> and fetches without a distributor filter.
\<close>

theorem all_mode_fetches_unscoped_counterexample:
  "1 < length [essential, endeavour] \<and>
   list_all (\<lambda>d. no_plans_probe (dist_id d) \<le> 0) [essential, endeavour] \<and>
   determine_distributors (Some ''all'') [essential, endeavour] no_plans_probe []
     = Inr (Fetch [\<lparr>dist_id = [], dist_name = ''Auto'', plan_count = Some 0\<rparr>])"
  by code_simp

text \<open>
  C8, amended. When more than one distributor is discovered and every probe returns
  \<open>0\<close> or the failure value \<open>-1\<close>, the interactive selection returns no distributor
  and step 2 ends the program (\<^verbatim>\<open>sys.exit(1)\<close>) before any fetch; under
  \<^verbatim>\<open>--dist all\<close> step 2 instead goes on to fetch with the single unscoped distributor
  \<^verbatim>\<open>Auto\<close>.
\<close>

theorem no_available_distributor_is_terminal:
  "1 < length distributors \<Longrightarrow> list_all (\<lambda>d. probe (dist_id d) \<le> 0) distributors \<Longrightarrow>
     select_distributor_interactive distributors probe inputs = Inr [] \<and>
     determine_distributors None distributors probe inputs = Inr Exit \<and>
     determine_distributors (Some ''all'') distributors probe inputs = Inr (Fetch [auto_distributor])"
proof -
  assume n: "1 < length distributors" and z: "list_all (\<lambda>d. probe (dist_id d) \<le> 0) distributors"
  from n have ne: "distributors \<noteq> []" "length distributors \<noteq> 1" by auto
  from probe_all_none [OF z] ne
  have s: "select_distributor_interactive distributors probe inputs = Inr []"
    by (simp add: select_distributor_interactive_def)
  have a: "map ascii_lower ''all'' = ''all''" by code_simp
  from s have "determine_distributors None distributors probe inputs = Inr Exit"
    by (simp add: determine_distributors_def)
  moreover from probe_all_none [OF z] a
  have "determine_distributors (Some ''all'') distributors probe inputs = Inr (Fetch [auto_distributor])"
    by (simp add: determine_distributors_def)
  ultimately show ?thesis using s by simp
qed

theorem no_available_distributor_is_terminal_witness:
  "1 < length [essential, endeavour] \<and>
   list_all (\<lambda>d. no_plans_probe (dist_id d) \<le> 0) [essential, endeavour] \<and>
   select_distributor_interactive [essential, endeavour] no_plans_probe [''1''] = Inr [] \<and>
   determine_distributors None [essential, endeavour] no_plans_probe [''1''] = Inr Exit"
proof -
  have n: "1 < length [essential, endeavour]" by simp
  have z: "list_all (\<lambda>d. no_plans_probe (dist_id d) \<le> 0) [essential, endeavour]" by code_simp
  from no_available_distributor_is_terminal [OF n z, of "[''1'']"] n z show ?thesis by simp
qed

section \<open>Parsing a feed-in description\<close>

subsection \<open>Characters\<close>

lemma rate_char_not_space: "is_rate_char c \<Longrightarrow> \<not> is_space c"
  by (auto simp: is_rate_char_def is_digit_def is_space_def)

lemma digit_is_rate_char: "is_digit c \<Longrightarrow> is_rate_char c"
  by (simp add: is_rate_char_def)

lemma rate_char_cases: "is_rate_char c \<Longrightarrow> \<not> is_digit c \<Longrightarrow> c = CHR ''.''"
  by (simp add: is_rate_char_def)

lemma dot_not_digit: "\<not> is_digit CHR ''.''"
  by (simp add: is_digit_def)

lemma literal_chars:
  "\<not> is_rate_char CHR ''c''" "\<not> is_rate_char CHR ''k''" "\<not> is_rate_char CHR '';''"
  "\<not> is_rate_char CHR '' ''" "\<not> is_rate_char CHR ''(''"
  "\<not> is_space CHR ''c''" "\<not> is_space CHR ''(''" "\<not> is_space CHR ''h''" "\<not> is_space CHR '')''"
  "is_space CHR '' ''"
  by (simp_all add: is_rate_char_def is_digit_def is_space_def)

lemma decimal_nonempty: "is_decimal s \<Longrightarrow> s \<noteq> []"
  by (auto simp: is_decimal_def)

lemma decimal_rate_chars: "is_decimal s \<Longrightarrow> \<forall>c \<in> set s. is_rate_char c"
  by (simp add: is_decimal_def list_all_iff)

subsection \<open>Numerals\<close>

lemma nat_of_digits_append:
  "nat_of_digits (xs @ ys) = nat_of_digits xs * 10 ^ length ys + nat_of_digits ys"
proof -
  define F :: "nat \<Rightarrow> char \<Rightarrow> nat" where "F = (\<lambda>n c. 10 * n + (of_char c - 48))"
  have step: "F a c = 10 * a + F 0 c" for a c by (simp add: F_def)
  have gen: "foldl F a zs = a * 10 ^ length zs + foldl F 0 zs" for a zs
  proof (induction zs arbitrary: a)
    case Nil
    show ?case by simp
  next
    case (Cons z zs)
    have "foldl F a (z # zs) = foldl F (F a z) zs" by simp
    also have "\<dots> = F a z * 10 ^ length zs + foldl F 0 zs" by (rule Cons.IH)
    also have "\<dots> = a * 10 ^ length (z # zs) + (F 0 z * 10 ^ length zs + foldl F 0 zs)"
      by (subst step) (simp add: algebra_simps)
    also have "F 0 z * 10 ^ length zs + foldl F 0 zs = foldl F (F 0 z) zs"
      by (rule Cons.IH [symmetric])
    also have "\<dots> = foldl F 0 (z # zs)" by simp
    finally show ?case .
  qed
  have "nat_of_digits (xs @ ys) = foldl F (foldl F 0 xs) ys"
    by (simp add: nat_of_digits_def F_def)
  also have "\<dots> = foldl F 0 xs * 10 ^ length ys + foldl F 0 ys" by (rule gen)
  finally show ?thesis by (simp add: nat_of_digits_def F_def)
qed

lemma decimal_split:
  assumes "is_decimal s"
  shows "(list_all is_digit s) \<or>
         (\<exists>ip fp. s = ip @ CHR ''.'' # fp \<and> list_all is_digit ip \<and> list_all is_digit fp \<and>
                   (ip \<noteq> [] \<or> fp \<noteq> []))"
proof (cases "list_all is_digit s")
  case True
  then show ?thesis by simp
next
  case False
  define ip where "ip = takeWhile is_digit s"
  define rest where "rest = dropWhile is_digit s"
  have s: "s = ip @ rest" by (simp add: ip_def rest_def)
  from False have "rest \<noteq> []" by (simp add: rest_def list_all_iff)
  then obtain c fp where rest: "rest = c # fp" by (cases rest) auto
  from rest have "dropWhile is_digit s \<noteq> []" by (simp add: rest_def)
  then have "\<not> is_digit (hd (dropWhile is_digit s))" by (rule hd_dropWhile)
  with rest have nd: "\<not> is_digit c" by (simp add: rest_def)
  from assms s rest have "is_rate_char c" by (simp add: is_decimal_def)
  with nd have c: "c = CHR ''.''" by (simp add: is_rate_char_def)
  have ipd: "list_all is_digit ip"
    by (auto simp: ip_def list_all_iff dest: set_takeWhileD)
  from assms s rest c have cnt: "length (filter (\<lambda>c. c = CHR ''.'') (ip @ CHR ''.'' # fp)) \<le> 1"
    by (simp add: is_decimal_def)
  then have nodot: "CHR ''.'' \<notin> set fp"
    by (auto simp: filter_empty_conv)
  from assms s rest have "\<forall>x \<in> set fp. is_rate_char x" by (simp add: is_decimal_def list_all_iff)
  with nodot have fpd: "list_all is_digit fp"
    by (auto simp: list_all_iff is_rate_char_def)
  from assms s rest c have "list_ex is_digit (ip @ CHR ''.'' # fp)" by (simp add: is_decimal_def)
  then have "ip \<noteq> [] \<or> fp \<noteq> []" by (auto simp: list_ex_iff dot_not_digit)
  with s rest c ipd fpd show ?thesis by blast
qed

lemma float_of_decimal:
  assumes "is_decimal s"
  shows "float_of_str s = Inr (decimal_value s)"
proof -
  from decimal_split [OF assms] consider
    (int) "list_all is_digit s"
    | (frac) ip fp where "s = ip @ CHR ''.'' # fp" "list_all is_digit ip" "list_all is_digit fp"
        "ip \<noteq> [] \<or> fp \<noteq> []"
    by blast
  then show ?thesis
  proof cases
    case int
    then have a: "\<forall>c \<in> set s. is_digit c" by (simp add: list_all_iff)
    then have t: "takeWhile is_digit s = s" "dropWhile is_digit s = []" "filter is_digit s = s"
      by simp_all
    from decimal_nonempty [OF assms] show ?thesis
      unfolding float_of_str_def decimal_value_def t by simp
  next
    case frac
    from frac(2,3) have a: "\<forall>c \<in> set ip. is_digit c" "\<forall>c \<in> set fp. is_digit c"
      by (simp_all add: list_all_iff)
    from a(1) have t: "takeWhile is_digit s = ip" "dropWhile is_digit s = CHR ''.'' # fp"
      by (simp_all add: frac(1) dot_not_digit)
    from a have f: "filter is_digit s = ip @ fp"
      by (simp add: frac(1) dot_not_digit)
    have "(10::rat) ^ length fp \<noteq> 0" by simp
    then have v: "of_nat (nat_of_digits (ip @ fp)) / 10 ^ length fp
        = (of_nat (nat_of_digits ip) :: rat) + of_nat (nat_of_digits fp) / 10 ^ length fp"
      by (simp add: nat_of_digits_append add_divide_distrib)
    from frac(3,4) v show ?thesis
      unfolding float_of_str_def decimal_value_def t f by simp
  qed
qed

subsection \<open>Matching one clause\<close>

lemma strip_prefix_append: "strip_prefix p (p @ r) = Some r"
  by (simp add: strip_prefix_def)

lemma take_rate_run:
  "\<forall>c \<in> set g. is_rate_char c \<Longrightarrow> \<not> is_rate_char x \<Longrightarrow>
     takeWhile is_rate_char (g @ x # r) = g \<and> dropWhile is_rate_char (g @ x # r) = x # r"
  by simp

lemma match_cap_none: "match_cap [] = None"
  by (simp add: match_cap_def strip_prefix_def)

lemma match_cap_some:
  assumes "is_decimal c"
  shows "match_cap ('' (first '' @ c @ ''kWh/day)'') = Some c"
proof -
  from decimal_rate_chars [OF assms] have rc: "\<forall>x \<in> set c. is_rate_char x" .
  from decimal_nonempty [OF assms] obtain c0 cr where c: "c = c0 # cr" by (cases c) auto
  with rc have c0: "\<not> is_space c0" by (simp add: rate_char_not_space)
  have 1: "dropWhile is_space ('' (first '' @ c @ ''kWh/day)'') = ''(first'' @ ('' '' @ c @ ''kWh/day)'')"
    by (simp add: literal_chars)
  have 2: "takeWhile is_space ('' '' @ c @ ''kWh/day)'') = '' ''"
    using c c0 by (simp add: literal_chars)
  have 3: "dropWhile is_space ('' '' @ c @ ''kWh/day)'') = c @ ''kWh/day)''"
    using c c0 by (simp add: literal_chars)
  from take_rate_run [OF rc literal_chars(2), of "''Wh/day)''"]
  have 4: "takeWhile is_rate_char (c @ ''kWh/day)'') = c"
          "dropWhile is_rate_char (c @ ''kWh/day)'') = ''kWh/day)'' @ []"
    by simp_all
  from decimal_nonempty [OF assms] show ?thesis
    unfolding match_cap_def 1 strip_prefix_append
    by (simp only: option.case 2 3 4 Let_def strip_prefix_append) simp
qed

lemma match_flat:
  assumes "is_decimal r"
  shows "match_tier (r @ ''c/kWh'') = Some (r, None)"
proof -
  from decimal_rate_chars [OF assms] have rc: "\<forall>x \<in> set r. is_rate_char x" .
  from take_rate_run [OF rc literal_chars(1), of "''/kWh''"]
  have t: "takeWhile is_rate_char (r @ ''c/kWh'') = r"
          "dropWhile is_rate_char (r @ ''c/kWh'') = ''c/kWh'' @ []"
    by simp_all
  from decimal_nonempty [OF assms] show ?thesis
    unfolding match_tier_def t strip_prefix_append by (simp add: match_cap_none)
qed

lemma match_capped:
  assumes "is_decimal r" and "is_decimal c"
  shows "match_tier (r @ ''c/kWh (first '' @ c @ ''kWh/day)'') = Some (r, Some c)"
proof -
  from decimal_rate_chars [OF assms(1)] have rc: "\<forall>x \<in> set r. is_rate_char x" .
  from take_rate_run [OF rc literal_chars(1), of "''/kWh (first '' @ c @ ''kWh/day)''"]
  have t: "takeWhile is_rate_char (r @ ''c/kWh (first '' @ c @ ''kWh/day)'') = r"
          "dropWhile is_rate_char (r @ ''c/kWh (first '' @ c @ ''kWh/day)'')
             = ''c/kWh'' @ ('' (first '' @ c @ ''kWh/day)'')"
    by simp_all
  from decimal_nonempty [OF assms(1)] show ?thesis
    unfolding match_tier_def t strip_prefix_append
    by (simp only: option.case Let_def match_cap_some [OF assms(2)]) simp
qed

lemma match_render:
  "clause_ok cl \<Longrightarrow>
     match_tier (render cl) = Some (case cl of Flat r \<Rightarrow> (r, None) | Capped r c \<Rightarrow> (r, Some c))"
  by (cases cl) (simp_all add: match_flat match_capped [simplified])

subsection \<open>Stripping and splitting\<close>

lemma strip_id:
  assumes "s \<noteq> []" and "\<not> is_space (hd s)" and "\<not> is_space (last s)"
  shows "strip s = s"
proof -
  from assms(1,2) have 1: "dropWhile is_space s = s" by (cases s) simp_all
  from assms(1,3) have 2: "dropWhile is_space (rev s) = rev s"
    by (cases "rev s") (simp_all add: last_rev [symmetric] hd_rev)
  show ?thesis by (simp add: strip_def 1 2)
qed

lemma render_shape:
  assumes "clause_ok cl"
  shows "render cl \<noteq> []" and "is_rate_char (hd (render cl))" and "\<not> is_space (last (render cl))"
    and "CHR '';'' \<notin> set (render cl)"
proof -
  obtain r where r: "is_decimal r" "\<exists>t. render cl = r @ t"
    using assms by (cases cl) auto
  from r decimal_nonempty [OF r(1)] decimal_rate_chars [OF r(1)]
  show "render cl \<noteq> []" and "is_rate_char (hd (render cl))"
    by (auto simp: hd_append)
  show "\<not> is_space (last (render cl))"
    by (cases cl) (simp_all add: literal_chars)
  have "\<And>d. is_decimal d \<Longrightarrow> CHR '';'' \<notin> set d"
    using decimal_rate_chars literal_chars(3) by blast
  with assms show "CHR '';'' \<notin> set (render cl)"
    by (cases cl) auto
qed

lemma strip_render: "clause_ok cl \<Longrightarrow> strip (render cl) = render cl"
  using render_shape [of cl] by (simp add: strip_id rate_char_not_space)

lemma split_no_separator: "CHR '';'' \<notin> set s \<Longrightarrow> split_str ''; '' s = [s]"
  by (induction s) auto

lemma split_at_separator:
  "CHR '';'' \<notin> set p \<Longrightarrow> split_str ''; '' (p @ ''; '' @ r) = p # split_str ''; '' r"
  by (induction p) auto

lemma split_join:
  "parts \<noteq> [] \<Longrightarrow> \<forall>p \<in> set parts. CHR '';'' \<notin> set p \<Longrightarrow>
     split_str ''; '' (join_str ''; '' parts) = parts"
proof (induction parts)
  case Nil
  then show ?case by simp
next
  case (Cons x xs)
  show ?case
  proof (cases xs)
    case Nil
    with Cons.prems show ?thesis by (simp add: split_no_separator)
  next
    case (Cons y zs)
    with Cons.prems Cons.IH have rest: "split_str ''; '' (join_str ''; '' xs) = xs"
      by simp
    from Cons.prems have "CHR '';'' \<notin> set x" by simp
    then have "split_str ''; '' (x @ ''; '' @ join_str ''; '' xs)
                 = x # split_str ''; '' (join_str ''; '' xs)"
      by (rule split_at_separator)
    with rest Cons show ?thesis by simp
  qed
qed

subsection \<open>All clauses\<close>

lemma parse_parts_render:
  "list_all clause_ok cs \<Longrightarrow> parse_parts (map render cs) = Inr (map clause_tier cs)"
proof (induction cs)
  case Nil
  show ?case by simp
next
  case (Cons cl cs)
  then have ok: "clause_ok cl" and rest: "parse_parts (map render cs) = Inr (map clause_tier cs)"
    by simp_all
  show ?case
  proof (cases cl)
    case (Flat r)
    with ok have "is_decimal r" by simp
    with Flat ok rest strip_render [OF ok] match_render [OF ok] show ?thesis
      by (simp add: float_of_decimal)
  next
    case (Capped r c)
    with ok have "is_decimal r" "is_decimal c" by simp_all
    with Capped ok rest strip_render [OF ok] match_render [OF ok] show ?thesis
      by (simp add: float_of_decimal)
  qed
qed

lemma join_hd:
  "parts \<noteq> [] \<Longrightarrow> hd parts \<noteq> [] \<Longrightarrow>
     join_str sep parts \<noteq> [] \<and> hd (join_str sep parts) = hd (hd parts)"
  by (induction sep parts rule: join_str.induct) simp_all

lemma joined_text_not_sentinel:
  assumes "list_all clause_ok cs" and "cs \<noteq> []"
  shows "join_str ''; '' (map render cs) \<noteq> []" and "join_str ''; '' (map render cs) \<noteq> no_solar_fit"
proof -
  from assms obtain cl rest where cs: "cs = cl # rest" and ok: "clause_ok cl"
    by (cases cs) auto
  from render_shape [OF ok] cs
  have h: "join_str ''; '' (map render cs) \<noteq> []"
          "hd (join_str ''; '' (map render cs)) = hd (render cl)"
    using join_hd [of "map render cs" "''; ''"] by simp_all
  from h(1) show "join_str ''; '' (map render cs) \<noteq> []" .
  from render_shape(2) [OF ok] h(2) have "is_rate_char (hd (join_str ''; '' (map render cs)))"
    by simp
  moreover have "\<not> is_rate_char (hd no_solar_fit)"
    by (simp add: no_solar_fit_def is_rate_char_def is_digit_def)
  ultimately show "join_str ''; '' (map render cs) \<noteq> no_solar_fit" by auto
qed

subsection \<open>The order of the parsed tiers\<close>

lemma sort_capped_first:
  fixes ts :: "(rat \<times> rat) list"
  shows "sort_key (\<lambda>t. (snd t = 0, - snd t)) ts
           = sort_key (\<lambda>t. - snd t) (filter (\<lambda>t. snd t \<noteq> 0) ts) @ filter (\<lambda>t. snd t = 0) ts"
proof (rule properties_for_sort_key)
  let ?f = "\<lambda>t :: rat \<times> rat. (snd t = 0, - snd t)"
  let ?caps = "sort_key (\<lambda>t. - snd t) (filter (\<lambda>t. snd t \<noteq> 0) ts)"
  let ?rest = "filter (\<lambda>t. snd t = 0) ts"
  show "mset (?caps @ ?rest) = mset ts"
    by (simp add: union_commute)
  have caps_set: "set ?caps = {t \<in> set ts. snd t \<noteq> 0}" by auto
  show "sorted (map ?f (?caps @ ?rest))"
  proof -
    have "sorted (map (\<lambda>t. - snd t) ?caps)" by (rule sorted_sort_key)
    then have "sorted_wrt (\<lambda>x y. - snd x \<le> - snd y) ?caps" by (simp add: sorted_map)
    then have "sorted_wrt (\<lambda>x y. ?f x \<le> ?f y) ?caps"
      by (rule sorted_wrt_mono_rel [rotated]) (auto simp: less_eq_prod_def)
    moreover have "sorted_wrt (\<lambda>x y. ?f x \<le> ?f y) ?rest"
      by (induction ts) (auto simp: less_eq_prod_def)
    moreover have "\<forall>x \<in> set ?caps. \<forall>y \<in> set ?rest. ?f x \<le> ?f y"
      by (auto simp: less_eq_prod_def)
    ultimately show ?thesis
      by (simp add: sorted_map sorted_wrt_append)
  qed
  fix k
  assume k: "k \<in> set (?caps @ ?rest)"
  show "filter (\<lambda>x. ?f k = ?f x) (?caps @ ?rest) = filter (\<lambda>x. ?f k = ?f x) ts"
  proof (cases "snd k = 0")
    case True
    then have "filter (\<lambda>x. ?f k = ?f x) ?caps = []"
      by (auto simp: filter_empty_conv)
    moreover from True have "filter (\<lambda>x. ?f k = ?f x) ?rest = filter (\<lambda>x. ?f k = ?f x) ts"
      by (auto intro: filter_cong)
    ultimately show ?thesis by simp
  next
    case False
    then have r: "filter (\<lambda>x. ?f k = ?f x) ?rest = []"
      by (auto simp: filter_empty_conv)
    have c: "filter (\<lambda>x. ?f k = ?f x) ?caps = filter (\<lambda>x. ?f k = ?f x) ts"
    proof -
      have "filter (\<lambda>x. ?f k = ?f x) ?caps = filter (\<lambda>x. - snd x = - snd k) ?caps"
        using False by (intro filter_cong) auto
      also have "\<dots> = filter (\<lambda>x. - snd x = - snd k) (filter (\<lambda>t. snd t \<noteq> 0) ts)"
        by (rule sort_key_stable)
      also have "\<dots> = filter (\<lambda>x. - snd x = - snd k \<and> snd x \<noteq> 0) ts"
        by (simp add: conj_commute)
      also have "\<dots> = filter (\<lambda>x. ?f k = ?f x) ts"
        using False by (intro filter_cong) auto
      finally show ?thesis .
    qed
    show ?thesis by (simp only: filter_append r c append_Nil2)
  qed
qed

lemma parse_joined_clauses:
  assumes ok: "list_all clause_ok cs"
  shows "parse_solar_fit_tiers (join_str ''; '' (map render cs))
        = Inr (sort_key (\<lambda>t. - snd t) (filter (\<lambda>t. snd t \<noteq> 0) (map clause_tier cs))
               @ filter (\<lambda>t. snd t = 0) (map clause_tier cs))"
proof (cases "cs = []")
  case True
  then show ?thesis by (simp add: parse_solar_fit_tiers_def)
next
  case False
  from ok have "\<forall>p \<in> set (map render cs). CHR '';'' \<notin> set p"
    by (auto simp: list_all_iff render_shape(4))
  with False have "split_str ''; '' (join_str ''; '' (map render cs)) = map render cs"
    by (simp add: split_join)
  with joined_text_not_sentinel [OF ok False] parse_parts_render [OF ok] show ?thesis
    by (simp add: parse_solar_fit_tiers_def sort_capped_first)
qed



section \<open>Reading back tiers with int prices and volumes\<close>

subsection \<open>Printing an int\<close>

lemma digit_char_digit: "d < 10 \<Longrightarrow> is_digit (digit_char d) \<and> of_char (digit_char d) - 48 = d"
proof -
  assume "d < 10"
  then have "d \<in> {0, 1, 2, 3, 4, 5, 6, 7, 8, 9}" by auto
  then show ?thesis
    by (auto simp: digit_char_def is_digit_def)
qed

lemma decimal_of_nat_digits:
  "list_all is_digit (decimal_of_nat n) \<and> decimal_of_nat n \<noteq> [] \<and>
   nat_of_digits (decimal_of_nat n) = n"
proof (induction n rule: decimal_of_nat.induct)
  case (1 n)
  show ?case
  proof (cases "10 \<le> n")
    case True
    have d: "is_digit (digit_char (n mod 10))" "of_char (digit_char (n mod 10)) - 48 = n mod 10"
      using digit_char_digit [of "n mod 10"] by simp_all
    have "nat_of_digits [digit_char (n mod 10)] = n mod 10"
      using d(2) by (simp add: nat_of_digits_def)
    with True 1 d(1) show ?thesis
      by (subst (1 2 3) decimal_of_nat.simps) (simp add: nat_of_digits_append)
  next
    case False
    then have "n < 10" by simp
    from digit_char_digit [OF this] False show ?thesis
      by (subst (1 2 3) decimal_of_nat.simps) (simp add: nat_of_digits_def)
  qed
qed

lemma digits_decimal:
  assumes "list_all is_digit s" and "s \<noteq> []"
  shows "is_decimal s" and "decimal_value s = of_nat (nat_of_digits s)"
proof -
  from assms(1) have a: "\<forall>c \<in> set s. is_digit c" by (simp add: list_all_iff)
  then have nodot: "filter (\<lambda>c. c = CHR ''.'') s = []"
    by (auto simp: filter_empty_conv dot_not_digit)
  from a assms(2) have ex: "list_ex is_digit s" by (cases s) simp_all
  from a have "list_all is_rate_char s" by (simp add: list_all_iff digit_is_rate_char)
  with nodot ex show "is_decimal s" by (simp add: is_decimal_def)
  from a have t: "filter is_digit s = s" "dropWhile is_digit s = []" by simp_all
  show "decimal_value s = of_nat (nat_of_digits s)"
    unfolding decimal_value_def t by simp
qed

lemma format_positive_int:
  assumes "0 < i"
  shows "is_decimal (format_number (JInt i))" and "decimal_value (format_number (JInt i)) = of_int i"
proof -
  from assms have f: "format_number (JInt i) = decimal_of_nat (nat i)"
    by (simp add: str_of_int_def)
  from decimal_of_nat_digits [of "nat i"] have
    d: "list_all is_digit (decimal_of_nat (nat i))" "decimal_of_nat (nat i) \<noteq> []"
       "nat_of_digits (decimal_of_nat (nat i)) = nat i"
    by simp_all
  from digits_decimal(1) [OF d(1,2)] f show "is_decimal (format_number (JInt i))" by simp
  from digits_decimal(2) [OF d(1,2)] d(3) f assms
  show "decimal_value (format_number (JInt i)) = of_int i" by simp
qed


subsection \<open>Formatting int tiers\<close>

lemma int_field_get:
  "int_field sr k \<Longrightarrow>
     \<exists>i. py_get sr k (JInt 0) = Inr (JInt i) \<and>
         (raw_number sr k = Some (of_int i) \<or> (raw_number sr k = None \<and> i = 0))"
proof (cases sr)
  case (JObj kvs)
  assume a: "int_field sr k"
  show ?thesis
  proof (cases "map_of kvs k")
    case None
    with JObj show ?thesis by (simp add: raw_number_def)
  next
    case (Some u)
    with a JObj obtain i where "u = JInt i" by (cases u) simp_all
    with JObj Some show ?thesis by (simp add: raw_number_def)
  qed
qed simp_all

lemma int_tier_fields:
  assumes "int_tier sr"
  shows "\<exists>p v. py_get sr ''unitPrice'' (JInt 0) = Inr (JInt p) \<and>
               py_get sr ''volume'' (JInt 0) = Inr (JInt v) \<and>
               tier_of sr = (if 0 < p then Some (of_int p, if 0 < v then of_int v else 0) else None)"
proof -
  from assms have "int_field sr ''unitPrice''" "int_field sr ''volume''"
    by (simp_all add: int_tier_def)
  from int_field_get [OF this(1)] int_field_get [OF this(2)] obtain p v where
    p: "py_get sr ''unitPrice'' (JInt 0) = Inr (JInt p)"
       "raw_number sr ''unitPrice'' = Some (of_int p) \<or> (raw_number sr ''unitPrice'' = None \<and> p = 0)"
    and v: "py_get sr ''volume'' (JInt 0) = Inr (JInt v)"
       "raw_number sr ''volume'' = Some (of_int v) \<or> (raw_number sr ''volume'' = None \<and> v = 0)"
    by blast
  from p(2) v(2) have
    "tier_of sr = (if 0 < p then Some (of_int p, if 0 < v then of_int v else 0) else None)"
    by (auto simp: tier_of_def)
  with p(1) v(1) show ?thesis by blast
qed

lemma tier_details_int:
  "list_all int_tier srl \<Longrightarrow>
     \<exists>cs. tier_details srl = Inr (map render cs) \<and> list_all clause_ok cs \<and>
          map clause_tier cs = List.map_filter tier_of srl"
proof (induction srl)
  case Nil
  show ?case by (simp add: List.map_filter_simps)
next
  case (Cons sr srl)
  then obtain cs where
    cs: "tier_details srl = Inr (map render cs)" "list_all clause_ok cs"
        "map clause_tier cs = List.map_filter tier_of srl"
    by auto
  from Cons.prems have "int_tier sr" by simp
  from int_tier_fields [OF this] obtain p v where
    f: "py_get sr ''unitPrice'' (JInt 0) = Inr (JInt p)"
       "py_get sr ''volume'' (JInt 0) = Inr (JInt v)"
       "tier_of sr = (if 0 < p then Some (of_int p, if 0 < v then of_int v else 0) else None)"
    by blast
  show ?case
  proof (cases "0 < p")
    case False
    with f cs show ?thesis
      by (auto simp: py_positive_def List.map_filter_simps)
  next
    case True
    define cl where
      "cl = (if 0 < v then Capped (format_number (JInt p)) (format_number (JInt v))
             else Flat (format_number (JInt p)))"
    have ok: "clause_ok cl"
      using format_positive_int(1) [OF True] format_positive_int(1) [of v]
      by (auto simp: cl_def)
    have tier: "clause_tier cl = (of_int p, if 0 < v then of_int v else 0)"
      using format_positive_int(2) [OF True] format_positive_int(2) [of v]
      by (auto simp: cl_def)
    have r: "detail_clause (JInt p) (JInt v) (0 < v) = render cl"
      by (simp add: cl_def detail_clause_def)
    from True f cs(1) r have "tier_details (sr # srl) = Inr (map render (cl # cs))"
      by (simp add: py_positive_def)
    moreover from ok cs(2) have "list_all clause_ok (cl # cs)" by simp
    moreover from True f(3) tier cs(3)
    have "map clause_tier (cl # cs) = List.map_filter tier_of (sr # srl)"
      by (simp add: List.map_filter_simps)
    ultimately show ?thesis by blast
  qed
qed

lemma details_loop_int:
  "list_all int_entry fits \<Longrightarrow>
     \<exists>cs. details_loop fits = Inr (map render cs) \<and> list_all clause_ok cs \<and>
          map clause_tier cs = concat (map fit_tiers fits)"
proof (induction fits)
  case Nil
  show ?case by simp
next
  case (Cons fit fits)
  then obtain cs where
    cs: "details_loop fits = Inr (map render cs)" "list_all clause_ok cs"
        "map clause_tier cs = concat (map fit_tiers fits)"
    by auto
  show ?case
  proof (cases "is_government fit")
    case True
    then have "fit_tiers fit = []" by (simp add: fit_tiers_def)
    with True cs have "details_loop (fit # fits) = Inr (map render cs) \<and> list_all clause_ok cs \<and>
        map clause_tier cs = concat (map fit_tiers (fit # fits))"
      by (simp add: government_type)
    then show ?thesis by blast
  next
    case False
    with Cons.prems obtain kvs where fit: "fit = JObj kvs"
      and st: "map_of kvs ''singleTariffRates'' = None \<or>
               (\<exists>srs. map_of kvs ''singleTariffRates'' = Some (JArr srs) \<and> list_all int_tier srs)"
      by (auto simp: int_entry_def split: json.splits option.splits)
    from False fit have ty: "map_of kvs ''type'' \<noteq> Some (JStr ''G'')"
      by (simp add: is_government_def)
    from st obtain srs where
      srs: "py_get fit ''singleTariffRates'' (JArr []) = Inr (JArr srs)" "list_all int_tier srs"
           "fit_tiers fit = List.map_filter tier_of srs"
      using fit False by (auto simp: fit_tiers_def List.map_filter_simps)
    from tier_details_int [OF srs(2)] obtain ds where
      ds: "tier_details srs = Inr (map render ds)" "list_all clause_ok ds"
          "map clause_tier ds = List.map_filter tier_of srs"
      by blast
    from fit ty srs(1) ds(1) cs(1) have "details_loop (fit # fits) = Inr (map render (ds @ cs))"
      by (auto split: option.splits)
    moreover from ds(2) cs(2) have "list_all clause_ok (ds @ cs)" by simp
    moreover from ds(3) cs(3) srs(3)
    have "map clause_tier (ds @ cs) = concat (map fit_tiers (fit # fits))" by simp
    ultimately show ?thesis by blast
  qed
qed

text \<open>
  For feed-in tiers with int prices and volumes the details text parses back to the
  structured tiers, capped ones first by descending cap.
\<close>

lemma int_tiers_round_trip:
  assumes "field c ''solarFit'' = Some (JArr fits)" and "list_all int_entry fits"
  shows "\<exists>d. extract_solar_fit_details c = Inr d \<and>
           parse_solar_fit_tiers d
             = Inr (sort_key (\<lambda>t. - snd t) (filter (\<lambda>t. snd t \<noteq> 0) (concat (map fit_tiers fits)))
                    @ filter (\<lambda>t. snd t = 0) (concat (map fit_tiers fits)))"
proof -
  from details_loop_int [OF assms(2)] obtain cs where
    cs: "details_loop fits = Inr (map render cs)" "list_all clause_ok cs"
        "map clause_tier cs = concat (map fit_tiers fits)"
    by blast
  have sentinel: "parse_solar_fit_tiers no_solar_fit = Inr []"
    by (simp add: parse_solar_fit_tiers_def)
  show ?thesis
  proof (cases "fits = [] \<or> cs = []")
    case True
    with cs(1) field_get [OF assms(1), of "JArr []"]
    have d: "extract_solar_fit_details c = Inr no_solar_fit"
      by (auto simp: extract_solar_fit_details_def)
    from True cs(3) have e: "concat (map fit_tiers fits) = []" by auto
    show ?thesis unfolding e using d sentinel by simp
  next
    case False
    with cs(1) field_get [OF assms(1), of "JArr []"]
    have "extract_solar_fit_details c = Inr (join_str ''; '' (map render cs))"
      by (simp add: extract_solar_fit_details_def)
    with parse_joined_clauses [OF cs(2)] cs(3) show ?thesis by simp
  qed
qed

end
